theory Spec2Isabelle
  imports Main "HOL-Library.Word" "HOL-Library.Multiset"
begin

unbundle bit_operations_syntax

section \<open>GeometryID: the packed 64-bit geometry identifier\<close>

text \<open>
  \<^verbatim>\<open>typedef uint64_t geo_id_value;\<close>  A \<^verbatim>\<open>GeometryID\<close> object holds the single member
  \<^verbatim>\<open>m_value\<close>, so an identifier is modelled by that 64-bit word.
\<close>

type_synonym geo_id_value = "64 word"

definition volume_mask :: geo_id_value where "volume_mask = 0xff00000000000000"
definition volume_shift :: geo_id_value where "volume_shift = 56"
definition boundary_mask :: geo_id_value where "boundary_mask = 0x00ff000000000000"
definition boundary_shift :: geo_id_value where "boundary_shift = 48"
definition layer_mask :: geo_id_value where "layer_mask = 0x0000ff0000000000"
definition layer_shift :: geo_id_value where "layer_shift = 40"
definition approach_mask :: geo_id_value where "approach_mask = 0x000000ff00000000"
definition approach_shift :: geo_id_value where "approach_shift = 32"
definition sensitive_mask :: geo_id_value where "sensitive_mask = 0x00000000ffff0000"
definition sensitive_shift :: geo_id_value where "sensitive_shift = 16"
definition channel_mask :: geo_id_value where "channel_mask = 0x000000000000ffff"
definition channel_shift :: geo_id_value where "channel_shift = 0"

text \<open>The six (mask, shift) pairs the class declares, in declaration order.\<close>

definition subfields :: "(geo_id_value \<times> geo_id_value) list" where
  "subfields =
     [(volume_mask, volume_shift), (boundary_mask, boundary_shift),
      (layer_mask, layer_shift), (approach_mask, approach_shift),
      (sensitive_mask, sensitive_shift), (channel_mask, channel_shift)]"

text \<open>
  \<^verbatim>\<open>operator+=(geo_id_value add_value)\<close>: \<^verbatim>\<open>m_value += add_value\<close>, an unsigned 64-bit
  addition (it wraps modulo \<open>2 ^ 64\<close>). The overload that takes a \<^verbatim>\<open>GeometryID\<close> adds that
  identifier's \<^verbatim>\<open>m_value\<close> in the same way.
\<close>

definition plus_assign :: "geo_id_value \<Rightarrow> geo_id_value \<Rightarrow> geo_id_value" where
  "plus_assign m_value add_value = m_value + add_value"

text \<open>
  \<^verbatim>\<open>value(mask, shift)\<close>: \<^verbatim>\<open>if (mask) return ((m_value & mask) >> shift); return m_value;\<close>
  A shift count of 64 or more is undefined in C++; the six declared shifts are all
  below 64, and \<open>drop_bit\<close> is the logical right shift there.
\<close>

definition "value" :: "geo_id_value \<Rightarrow> geo_id_value \<Rightarrow> geo_id_value \<Rightarrow> geo_id_value" where
  "value m_value msk shft =
     (if msk \<noteq> 0 then drop_bit (unat shft) (m_value AND msk) else m_value)"

section \<open>Boundary surfaces of an AbstractVolume\<close>

text \<open>
  Modelled from the spec: the type tag of a Surface ("planar, cylindrical, line/perigee,
  \<dots>"); the declaration of \<^verbatim>\<open>Surface::type()\<close> is not among the sources. Only the test
  \<^verbatim>\<open>sf->type() == Surface::Cylinder\<close> is made on it.
\<close>

datatype SurfaceType = Plane | Cylinder | Line | Perigee | OtherSurface

text \<open>
  A \<^verbatim>\<open>BoundarySurfaceT<AbstractVolume>\<close> as its constructor call builds it: the wrapped
  surface, the inner and the outer volume pointer (\<open>None\<close> is \<^verbatim>\<open>nullptr\<close>).
\<close>

record ('sf, 'vol) BoundarySurfaceT =
  m_surface :: 'sf
  inner :: "'vol option"
  outer :: "'vol option"

text \<open>
  The range-for loop of \<^verbatim>\<open>createBoundarySurfaces\<close>. \<open>sfCounter\<close> and \<open>sfNumber\<close> are C++
  \<^verbatim>\<open>int\<close>s (32-bit, compared as signed); the loop body never writes \<open>sfCounter\<close>, so the
  recursive call passes it on as it is. \<open>ty\<close> is \<^verbatim>\<open>Surface::type()\<close>, \<open>this\<close> the volume.
\<close>

fun boundary_loop ::
  "('sf \<Rightarrow> SurfaceType) \<Rightarrow> 'vol \<Rightarrow> 32 word \<Rightarrow> 32 word \<Rightarrow> 'sf list \<Rightarrow>
   ('sf, 'vol) BoundarySurfaceT list \<Rightarrow> ('sf, 'vol) BoundarySurfaceT list" where
  "boundary_loop ty this sfCounter sfNumber [] m_boundarySurfaces = m_boundarySurfaces"
| "boundary_loop ty this sfCounter sfNumber (sf # sfs) m_boundarySurfaces =
     (let inner = (if ty sf = Cylinder \<and> sfCounter = 3 \<and> 3 <s sfNumber
                   then None else Some this);
          outer = (if inner \<noteq> None then None else Some this);
          bSurface = \<lparr>m_surface = sf, inner = inner, outer = outer\<rparr>
      in boundary_loop ty this sfCounter sfNumber sfs (m_boundarySurfaces @ [bSurface]))"

text \<open>
  \<^verbatim>\<open>createBoundarySurfaces\<close>: \<open>surfaces\<close> is what
  \<^verbatim>\<open>volumeBounds().decomposeToSurfaces(m_transform)\<close> returned, \<open>m_boundarySurfaces\<close> the
  member vector before the call (empty when the constructor calls it).
  \<^verbatim>\<open>int sfNumber = surfaces.size()\<close> narrows the size to 32 bits.
\<close>

definition createBoundarySurfaces ::
  "('sf \<Rightarrow> SurfaceType) \<Rightarrow> 'vol \<Rightarrow> 'sf list \<Rightarrow>
   ('sf, 'vol) BoundarySurfaceT list \<Rightarrow> ('sf, 'vol) BoundarySurfaceT list" where
  "createBoundarySurfaces ty this surfaces m_boundarySurfaces =
     (let sfCounter = 0; sfNumber = word_of_nat (length surfaces)
      in boundary_loop ty this sfCounter sfNumber surfaces m_boundarySurfaces)"

section \<open>KalmanActor\<close>

subsection \<open>Data\<close>

text \<open>
  Surfaces, layers and volumes are handled through pointers only; a pointer is modelled
  by its address. \<^verbatim>\<open>std::map\<close> and \<^verbatim>\<open>std::multimap\<close> order their keys by address.
\<close>

type_synonym surface_ptr = nat
type_synonym layer_ptr = nat
type_synonym volume_ptr = nat

datatype NavigationDirection = backward | forward

text \<open>
  The value \<^verbatim>\<open>intersectionEstimate\<close> returns: its conversion to \<^verbatim>\<open>bool\<close> (\<open>valid\<close>) and its
  \<^verbatim>\<open>position\<close> are what \<^verbatim>\<open>initialize\<close> reads. \<open>'v\<close> is \<^verbatim>\<open>Vector3D\<close>.
\<close>

record 'v Intersection =
  position :: 'v
  valid :: bool

text \<open>
  \<^verbatim>\<open>state.stepping\<close>: position, direction, momentum magnitude (\<open>'s\<close> is \<^verbatim>\<open>double\<close>),
  covariance (\<open>'c\<close>) and navigation direction. The floating-point types stay abstract:
  the Actor only copies their values.
\<close>

record ('v, 's, 'c) stepping_state =
  pos :: 'v
  dir :: 'v
  p :: 's
  cov :: 'c
  navDir :: NavigationDirection

text \<open>\<^verbatim>\<open>std::multimap<const Layer*, const Surface*>\<close>: the entries in iteration order.\<close>

type_synonym MeasurementSurfaces = "(layer_ptr \<times> surface_ptr) list"

record sequence_state =
  externalSurfaces :: MeasurementSurfaces

record navigation_state =
  currentSurface :: "surface_ptr option"
  worldVolume :: "volume_ptr option"
  sequence :: sequence_state

text \<open>
  The propagator state. \<open>options\<close> stands for everything in it besides \<^verbatim>\<open>stepping\<close> and
  \<^verbatim>\<open>navigation\<close> (the debug options, and whatever else the propagation engine keeps).
\<close>

record ('v, 's, 'c, 'o) propagator_state =
  stepping :: "('v, 's, 'c) stepping_state"
  navigation :: navigation_state
  options :: 'o

text \<open>
  The value the updator returns on success, read through \<^verbatim>\<open>position()\<close>, \<^verbatim>\<open>momentum()\<close>
  and \<^verbatim>\<open>covariance()\<close>; the last one is a pointer that \<^verbatim>\<open>update\<close> dereferences.
\<close>

record ('v, 'c) updated_parameters =
  upd_position :: 'v
  upd_momentum :: 'v
  upd_covariance :: "'c option"

text \<open>\<^verbatim>\<open>struct this_result\<close>. \<^verbatim>\<open>processedStates\<close> is a \<^verbatim>\<open>size_t\<close> counter.\<close>

record 'ts this_result =
  fittedStates :: "'ts list"
  processedStates :: "64 word"
  accessIndex :: "surface_ptr \<rightharpoonup> nat"

text \<open>The default member initialisers of \<^verbatim>\<open>this_result\<close>.\<close>

definition this_result_init :: "'ts this_result" where
  "this_result_init = \<lparr>fittedStates = [], processedStates = 0, accessIndex = Map.empty\<rparr>"

text \<open>
  The Actor: its public member \<^verbatim>\<open>trackStates\<close> and the updator. (\<^verbatim>\<open>m_calibrator\<close> is stored
  but never called.) \<open>'b\<close> is the bound state \<^verbatim>\<open>bind\<close> returns.
\<close>

record ('ts, 'b, 'v, 'c) KalmanActor =
  trackStates :: "'ts list"
  m_updator :: "'ts \<Rightarrow> 'b \<Rightarrow> ('v, 'c) updated_parameters option"

text \<open>
  The collaborators the Actor calls and whose code is elsewhere: \<^verbatim>\<open>detail::getSurface\<close>,
  \<^verbatim>\<open>Surface::associatedLayer()\<close>, \<^verbatim>\<open>Surface::intersectionEstimate\<close>,
  \<^verbatim>\<open>TrackingVolume::trackingVolume\<close>, \<^verbatim>\<open>TrackingVolume::associatedLayer\<close>,
  \<^verbatim>\<open>state.stepping.bind\<close> (it may move the stepper, so it returns the stepper state too),
  and \<^verbatim>\<open>normalized()\<close> and \<^verbatim>\<open>norm()\<close> of a vector.
\<close>

record ('ts, 'b, 'v, 's, 'c) collaborators =
  getSurface :: "'ts \<Rightarrow> surface_ptr"
  associatedLayer :: "surface_ptr \<Rightarrow> layer_ptr option"
  intersectionEstimate ::
    "surface_ptr \<Rightarrow> 'v \<Rightarrow> 'v \<Rightarrow> NavigationDirection \<Rightarrow> bool \<Rightarrow> 'v Intersection"
  trackingVolume :: "volume_ptr \<Rightarrow> 'v \<Rightarrow> volume_ptr option"
  volumeAssociatedLayer :: "volume_ptr \<Rightarrow> 'v \<Rightarrow> layer_ptr option"
  bind :: "('v, 's, 'c) stepping_state \<Rightarrow> surface_ptr \<Rightarrow> bool \<Rightarrow>
           'b \<times> ('v, 's, 'c) stepping_state"
  normalized :: "'v \<Rightarrow> 'v"
  norm :: "'v \<Rightarrow> 's"

datatype error = IndexOutOfRange | NullCovariance

subsection \<open>Operations\<close>

text \<open>
  \<^verbatim>\<open>std::multimap::insert\<close>: the entries stay ordered by key, and a new entry goes behind
  the entries with an equal key (the upper bound of its equal range).
\<close>

fun multimap_insert :: "layer_ptr \<times> surface_ptr \<Rightarrow> MeasurementSurfaces \<Rightarrow> MeasurementSurfaces" where
  "multimap_insert e [] = [e]"
| "multimap_insert e (x # xs) =
     (if fst e < fst x then e # x # xs else x # multimap_insert e xs)"

text \<open>
  Modelled from the spec: \<^verbatim>\<open>state.stepping.update(pos, dir, p)\<close>, whose code is with the
  stepper, not among the sources: "overwrite the stepper's running position with the
  updated position, its running direction with the updated momentum direction (unit
  vector), its running momentum magnitude".
\<close>

definition stepper_update ::
  "'v \<Rightarrow> 'v \<Rightarrow> 's \<Rightarrow> ('v, 's, 'c) stepping_state \<Rightarrow> ('v, 's, 'c) stepping_state" where
  "stepper_update upos udir up st = st\<lparr>pos := upos, dir := udir, p := up\<rparr>"

text \<open>
  Lines 158 to 162 of \<^verbatim>\<open>initialize\<close>: the intersection of a Surface with the line from the
  stepper position along the stepper direction.
\<close>

definition stepperIntersection ::
  "('ts, 'b, 'v, 's, 'c) collaborators \<Rightarrow> ('v, 's, 'c, 'o) propagator_state \<Rightarrow>
   surface_ptr \<Rightarrow> 'v Intersection" where
  "stepperIntersection env state surface =
     intersectionEstimate env surface (pos (stepping state)) (dir (stepping state))
       (navDir (stepping state)) False"

text \<open>
  Lines 155 to 171 of \<^verbatim>\<open>initialize\<close>: the Layer of one Surface. The Surface's own
  back-reference is taken when it is set; otherwise the Layer is looked up at the
  intersection of the Surface with the line from the stepper position, which needs a valid
  intersection, a world volume, and a volume at the intersection point.
\<close>

definition resolveLayer ::
  "('ts, 'b, 'v, 's, 'c) collaborators \<Rightarrow> ('v, 's, 'c, 'o) propagator_state \<Rightarrow>
   surface_ptr \<Rightarrow> layer_ptr option" where
  "resolveLayer env state surface =
     (case associatedLayer env surface of
        Some layer \<Rightarrow> Some layer
      | None \<Rightarrow>
          (let surfaceIntersection = stepperIntersection env state surface
           in if valid surfaceIntersection then
                (case worldVolume (navigation state) of
                   Some world \<Rightarrow>
                     (let intersection = position surfaceIntersection
                      in case trackingVolume env world intersection of
                           Some layerVolume \<Rightarrow>
                             volumeAssociatedLayer env layerVolume intersection
                         | None \<Rightarrow> None)
                 | None \<Rightarrow> None)
              else None))"

text \<open>
  The loop of \<^verbatim>\<open>initialize\<close> over \<^verbatim>\<open>result.fittedStates\<close>, threading \<^verbatim>\<open>stateIndex\<close>, the
  multimap and \<^verbatim>\<open>result.accessIndex\<close>. \<^verbatim>\<open>stateIndex\<close> stays below the length of the vector
  it walks, so it cannot wrap.
\<close>

fun initialize_loop ::
  "('ts, 'b, 'v, 's, 'c) collaborators \<Rightarrow> ('v, 's, 'c, 'o) propagator_state \<Rightarrow> 'ts list \<Rightarrow>
   nat \<Rightarrow> MeasurementSurfaces \<Rightarrow> (surface_ptr \<rightharpoonup> nat) \<Rightarrow>
   MeasurementSurfaces \<times> (surface_ptr \<rightharpoonup> nat)" where
  "initialize_loop env state [] stateIndex measurementSurfaces index =
     (measurementSurfaces, index)"
| "initialize_loop env state (tState # rest) stateIndex measurementSurfaces index =
     (let surface = getSurface env tState
      in case resolveLayer env state surface of
           Some layer \<Rightarrow>
             initialize_loop env state rest (stateIndex + 1)
               (multimap_insert (layer, surface) measurementSurfaces)
               (index(surface \<mapsto> stateIndex))
         | None \<Rightarrow>
             initialize_loop env state rest (stateIndex + 1) measurementSurfaces index)"

text \<open>
  \<^verbatim>\<open>initialize\<close>. The method is \<^verbatim>\<open>const\<close>, so \<^verbatim>\<open>std::move(trackStates)\<close> binds to the copy
  assignment and the Actor keeps its member; nothing this file models reads the member
  again in a way that could tell a copy from a move.
\<close>

definition initialize ::
  "('ts, 'b, 'v, 's, 'c) collaborators \<Rightarrow> ('ts, 'b, 'v, 'c) KalmanActor \<Rightarrow>
   ('v, 's, 'c, 'o) propagator_state \<Rightarrow> 'ts this_result \<Rightarrow>
   ('v, 's, 'c, 'o) propagator_state \<times> 'ts this_result" where
  "initialize env actor state result =
     (let result1 = result\<lparr>fittedStates := trackStates actor\<rparr>;
          (measurementSurfaces, index) =
             initialize_loop env state (fittedStates result1) 0 [] (accessIndex result1)
      in (state\<lparr>navigation := (navigation state)
                   \<lparr>sequence := \<lparr>externalSurfaces = measurementSurfaces\<rparr>\<rparr>\<rparr>,
          result1\<lparr>accessIndex := index\<rparr>))"

text \<open>
  \<^verbatim>\<open>update\<close>. \<^verbatim>\<open>result.fittedStates[i]\<close> beyond the end and \<^verbatim>\<open>*(updPar->covariance())\<close> on a
  null pointer are undefined in C++; the model returns an error there. The track state is
  copied out of the vector (\<^verbatim>\<open>auto trackState = ...\<close>) and the vector is not written.
\<close>

definition update ::
  "('ts, 'b, 'v, 's, 'c) collaborators \<Rightarrow> ('ts, 'b, 'v, 'c) KalmanActor \<Rightarrow> surface_ptr \<Rightarrow>
   ('v, 's, 'c, 'o) propagator_state \<Rightarrow> 'ts this_result \<Rightarrow>
   error + ('v, 's, 'c, 'o) propagator_state \<times> 'ts this_result" where
  "update env actor surface state result =
     (case accessIndex result surface of
        None \<Rightarrow> Inr (state, result)
      | Some cindex \<Rightarrow>
          (let (boundState, bound) = bind env (stepping state) surface True
           in if cindex < length (fittedStates result) then
                (let trackState = fittedStates result ! cindex
                 in case m_updator actor trackState boundState of
                      Some updPar \<Rightarrow>
                        (let updPos = upd_position updPar;
                             updMom = upd_momentum updPar;
                             moved = stepper_update updPos (normalized env updMom)
                                       (norm env updMom) bound
                         in case upd_covariance updPar of
                              Some c \<Rightarrow>
                                Inr (state\<lparr>stepping := moved\<lparr>cov := c\<rparr>\<rparr>,
                                     result\<lparr>processedStates := processedStates result + 1\<rparr>)
                            | None \<Rightarrow> Inl NullCovariance)
                    | None \<Rightarrow>
                        Inr (state\<lparr>stepping := bound\<rparr>,
                             result\<lparr>processedStates := processedStates result + 1\<rparr>))
              else Inl IndexOutOfRange))"

text \<open>
  \<^verbatim>\<open>operator()\<close>. After the call of \<^verbatim>\<open>update\<close> the source has the comment "Smooth and throw
  a stop condition when all track states have been handled" and the line
  \<^verbatim>\<open>if (processedStates == trackStates.size()) }\<close>, a condition with no statement under it:
  nothing is executed there, and the function ends.
\<close>

definition operator_call ::
  "('ts, 'b, 'v, 's, 'c) collaborators \<Rightarrow> ('ts, 'b, 'v, 'c) KalmanActor \<Rightarrow>
   ('v, 's, 'c, 'o) propagator_state \<Rightarrow> 'ts this_result \<Rightarrow>
   error + ('v, 's, 'c, 'o) propagator_state \<times> 'ts this_result" where
  "operator_call env actor state result =
     (let (state1, result1) =
            (if fittedStates result = [] then initialize env actor state result
             else (state, result))
      in case currentSurface (navigation state1) of
           Some surface \<Rightarrow> update env actor surface state1 result1
         | None \<Rightarrow> Inr (state1, result1))"

text \<open>
  Modelled from the spec: the stepping loop of the propagation engine, which is not among
  the sources, as far as the end-to-end scenarios need it: at each step the navigation
  reports the surface just reached (or none) and the Actor is invoked once.
\<close>

fun propagate ::
  "('ts, 'b, 'v, 's, 'c) collaborators \<Rightarrow> ('ts, 'b, 'v, 'c) KalmanActor \<Rightarrow>
   surface_ptr option list \<Rightarrow> ('v, 's, 'c, 'o) propagator_state \<Rightarrow> 'ts this_result \<Rightarrow>
   error + ('v, 's, 'c, 'o) propagator_state \<times> 'ts this_result" where
  "propagate env actor [] state result = Inr (state, result)"
| "propagate env actor (reached # steps) state result =
     (case operator_call env actor
             (state\<lparr>navigation := (navigation state)\<lparr>currentSurface := reached\<rparr>\<rparr>) result of
        Inl e \<Rightarrow> Inl e
      | Inr (state', result') \<Rightarrow> propagate env actor steps state' result')"

subsection \<open>Notions used in the statements\<close>

text \<open>
  The (Layer, Surface) pairs of the track states whose Layer resolves, in the order of the
  track states: what \<^verbatim>\<open>initialize\<close> passes to \<^verbatim>\<open>measurementSurfaces.insert\<close>, one after the
  other.
\<close>

fun resolved_entries ::
  "('ts, 'b, 'v, 's, 'c) collaborators \<Rightarrow> ('v, 's, 'c, 'o) propagator_state \<Rightarrow> 'ts list \<Rightarrow>
   MeasurementSurfaces" where
  "resolved_entries env state [] = []"
| "resolved_entries env state (tState # rest) =
     (case resolveLayer env state (getSurface env tState) of
        Some layer \<Rightarrow> (layer, getSurface env tState) # resolved_entries env state rest
      | None \<Rightarrow> resolved_entries env state rest)"

text \<open>The positions of the track states that lie on a given Surface, in ascending order.\<close>

definition surface_positions ::
  "('ts, 'b, 'v, 's, 'c) collaborators \<Rightarrow> 'ts list \<Rightarrow> surface_ptr \<Rightarrow> nat list" where
  "surface_positions env states surface =
     filter (\<lambda>i. getSurface env (states ! i) = surface) [0..<length states]"

text \<open>
  The two indices \<^verbatim>\<open>initialize\<close> builds when it starts from an empty access index: the
  access index and the multimap, as functions of the track states.
\<close>

definition built_index ::
  "('ts, 'b, 'v, 's, 'c) collaborators \<Rightarrow> ('v, 's, 'c, 'o) propagator_state \<Rightarrow> 'ts list \<Rightarrow>
   surface_ptr \<rightharpoonup> nat" where
  "built_index env state states =
     snd (initialize_loop env state states 0 [] Map.empty)"

definition built_surfaces ::
  "('ts, 'b, 'v, 's, 'c) collaborators \<Rightarrow> ('v, 's, 'c, 'o) propagator_state \<Rightarrow> 'ts list \<Rightarrow>
   MeasurementSurfaces" where
  "built_surfaces env state states =
     fst (initialize_loop env state states 0 [] Map.empty)"

text \<open>
  Every position stored in the access index lies inside the trajectory the result holds.
\<close>

definition well_indexed :: "'ts this_result \<Rightarrow> bool" where
  "well_indexed result \<longleftrightarrow>
     (\<forall>surface i. accessIndex result surface = Some i \<longrightarrow> i < length (fittedStates result))"

subsection \<open>A concrete fit, for evaluation\<close>

text \<open>
  A small detector on which the definitions can be run. Vectors, scalars, covariances
  and bound states are numbers. A track state is a pair of its Surface and a measurement;
  the updator rejects the measurement 0. Surfaces below 100 carry their Layer;
  Surfaces from 100 on need the geometry lookup, which finds a Layer below 120 only.
\<close>

definition example_env :: "(surface_ptr \<times> nat, nat, nat, nat, nat) collaborators" where
  "example_env =
     \<lparr>getSurface = fst,
      associatedLayer = (\<lambda>sf. if sf < 100 then Some (sf + 1000) else None),
      intersectionEstimate = (\<lambda>sf ps d nd b. \<lparr>position = sf, valid = (sf < 200)\<rparr>),
      trackingVolume = (\<lambda>world pt. if pt < 150 then Some (world + 1) else None),
      volumeAssociatedLayer = (\<lambda>vol pt. if pt < 120 then Some (pt + 1000) else None),
      bind = (\<lambda>st sf b. (sf, st\<lparr>pos := 10 * sf, cov := cov st + 1\<rparr>)),
      normalized = (\<lambda>v. 1),
      norm = (\<lambda>v. v)\<rparr>"

definition example_updator :: "surface_ptr \<times> nat \<Rightarrow> nat \<Rightarrow> (nat, nat) updated_parameters option" where
  "example_updator trackState boundState =
     (if snd trackState = 0 then None
      else Some \<lparr>upd_position = 10 * boundState + 1, upd_momentum = snd trackState,
                 upd_covariance = Some 0\<rparr>)"

definition example_actor :: "(surface_ptr \<times> nat) list \<Rightarrow> (surface_ptr \<times> nat, nat, nat, nat) KalmanActor" where
  "example_actor states = \<lparr>trackStates = states, m_updator = example_updator\<rparr>"

definition example_state :: "(nat, nat, nat, nat) propagator_state" where
  "example_state =
     \<lparr>stepping = \<lparr>pos = 0, dir = 1, p = 5, cov = 0, navDir = forward\<rparr>,
      navigation = \<lparr>currentSurface = None, worldVolume = Some 7,
                    sequence = \<lparr>externalSurfaces = []\<rparr>\<rparr>,
      options = 0\<rparr>"

text \<open>
  Five track states on the Surfaces 1 to 5, the third with a measurement the updator
  rejects, and the result the Actor holds once \<^verbatim>\<open>initialize\<close> has run on them.
\<close>

definition example_states :: "(surface_ptr \<times> nat) list" where
  "example_states = [(1, 1), (2, 1), (3, 0), (4, 1), (5, 1)]"

definition example_result :: "(surface_ptr \<times> nat) this_result" where
  "example_result =
     snd (initialize example_env (example_actor example_states) example_state this_result_init)"



definition ordered_states :: "(surface_ptr \<times> nat) list" where
  "ordered_states = [(1, 1), (2, 1)]"

definition swapped_states :: "(surface_ptr \<times> nat) list" where
  "swapped_states = [(2, 1), (1, 1)]"

text \<open>
  Five track states the updator accepts; the propagator state in which the navigation
  reports a given Surface; and the state and result after the Actor's first invocation on
  the two ordered track states with Surface 1 reported.
\<close>

definition accepted_states :: "(surface_ptr \<times> nat) list" where
  "accepted_states = [(1, 1), (2, 1), (3, 1), (4, 1), (5, 1)]"

definition reporting :: "surface_ptr \<Rightarrow> (nat, nat, nat, nat) propagator_state" where
  "reporting surface =
     example_state\<lparr>navigation := (navigation example_state)\<lparr>currentSurface := Some surface\<rparr>\<rparr>"

definition first_visit_state :: "(nat, nat, nat, nat) propagator_state" where
  "first_visit_state =
     \<lparr>stepping = \<lparr>pos = 11, dir = 1, p = 1, cov = 0, navDir = forward\<rparr>,
      navigation = \<lparr>currentSurface = Some 1, worldVolume = Some 7,
                    sequence = \<lparr>externalSurfaces = [(1001, 1), (1002, 2)]\<rparr>\<rparr>,
      options = 0\<rparr>"

definition first_visit_result :: "(surface_ptr \<times> nat) this_result" where
  "first_visit_result =
     \<lparr>fittedStates = ordered_states, processedStates = 1,
      accessIndex = [1 \<mapsto> 0, 2 \<mapsto> 1]\<rparr>"

text \<open>
  The surfaces a cylinder volume with an inner radius decomposes into: two discs, the
  outer and the inner cylinder, at the addresses 10 to 13.
\<close>

definition example_type :: "nat \<Rightarrow> SurfaceType" where
  "example_type sf = (if sf = 12 \<or> sf = 13 then Cylinder else Plane)"

section \<open>Properties of GeometryID\<close>

lemmas field_defs =
  volume_mask_def volume_shift_def boundary_mask_def boundary_shift_def
  layer_mask_def layer_shift_def approach_mask_def approach_shift_def
  sensitive_mask_def sensitive_shift_def channel_mask_def channel_shift_def

lemma subfields_cases:
  assumes "(m, s) \<in> set subfields"
  obtains "m = 0xff00000000000000" "s = 56" | "m = 0x00ff000000000000" "s = 48"
    | "m = 0x0000ff0000000000" "s = 40" | "m = 0x000000ff00000000" "s = 32"
    | "m = 0x00000000ffff0000" "s = 16" | "m = 0x000000000000ffff" "s = 0"
  using assms by (auto simp add: subfields_def field_defs)

lemma subfield_mask_nonzero: "(m, s) \<in> set subfields \<Longrightarrow> m \<noteq> 0"
  by (erule subfields_cases) simp_all

lemma subfield_mask_above_shift: "(m, s) \<in> set subfields \<Longrightarrow> take_bit (unat s) m = 0"
  by (erule subfields_cases) simp_all

lemma subfield_mask_below_shift:
  assumes "(m1, s1) \<in> set subfields" "(m2, s2) \<in> set subfields" "s1 < s2"
  shows "take_bit (unat s2) m1 = m1"
  using assms(1)
proof (cases rule: subfields_cases)
  case 1 with assms(2,3) show ?thesis by (elim subfields_cases) simp_all
next
  case 2 with assms(2,3) show ?thesis by (elim subfields_cases) simp_all
next
  case 3 with assms(2,3) show ?thesis by (elim subfields_cases) simp_all
next
  case 4 with assms(2,3) show ?thesis by (elim subfields_cases) simp_all
next
  case 5 with assms(2,3) show ?thesis by (elim subfields_cases) simp_all
next
  case 6 with assms(2,3) show ?thesis by (elim subfields_cases) simp_all
qed

text \<open>A word is the sum of its part under a mask and its part outside the mask.\<close>

lemma split_by_mask:
  fixes v m :: "'a::len word"
  shows "v = (v AND NOT m) + (v AND m)"
proof -
  have "(v AND NOT m) AND (v AND m) = 0"
    by (simp add: bit_eq_iff bit_simps)
  then have "(v AND NOT m) + (v AND m) = (v AND NOT m) OR (v AND m)"
    by (rule disjunctive_add_eq_or)
  also have "\<dots> = v"
    by (auto simp add: bit_eq_iff bit_simps)
  finally show ?thesis by simp
qed

text \<open>An addition that stays inside the mask \<open>m2\<close> leaves the bits of a disjoint mask alone.\<close>

lemma add_within_mask:
  fixes v a m1 m2 :: "'a::len word"
  assumes d: "m1 AND m2 = 0" and nc: "((v AND m2) + a) AND NOT m2 = 0"
  shows "(v + a) AND m1 = v AND m1"
proof -
  define w where "w = (v AND m2) + a"
  have w: "\<And>n. bit w n \<Longrightarrow> bit m2 n"
    using nc unfolding w_def [symmetric]
    by (auto simp add: bit_eq_iff bit_simps dest: bit_imp_le_length)
  have dm: "\<And>n. bit m1 n \<Longrightarrow> \<not> bit m2 n"
    using d by (auto simp add: bit_eq_iff bit_simps dest: bit_imp_le_length)
  have "v + a = (v AND NOT m2) + w"
    unfolding w_def using split_by_mask [of v m2] by (metis add.assoc)
  also have "\<dots> = (v AND NOT m2) OR w"
    by (rule disjunctive_add_eq_or) (use w in \<open>auto simp add: bit_eq_iff bit_simps\<close>)
  finally have "(v + a) AND m1 = ((v AND NOT m2) OR w) AND m1" by simp
  also have "\<dots> = v AND m1"
    using w dm by (auto simp add: bit_eq_iff bit_simps)
  finally show ?thesis .
qed

lemma word_take_bit_add:
  fixes v a :: "'a::len word"
  shows "take_bit n (v + a) = take_bit n (take_bit n v + take_bit n a)"
  apply transfer
  apply (simp add: take_bit_eq_mod)
  apply presburger
  done

text \<open>An addend whose low \<open>n\<close> bits are zero leaves a mask inside the low \<open>n\<close> bits alone.\<close>

lemma add_above_field:
  fixes v a m1 :: "'a::len word"
  assumes a: "take_bit n a = 0" and m: "take_bit n m1 = m1"
  shows "(v + a) AND m1 = v AND m1"
proof -
  have "take_bit n (v + a) = take_bit n (take_bit n v + take_bit n a)"
    by (rule word_take_bit_add)
  then have t: "take_bit n (v + a) = take_bit n v" using a by simp
  have "(v + a) AND m1 = (v + a) AND take_bit n m1" using m by simp
  also have "\<dots> = take_bit n (v + a) AND m1"
    by (simp add: bit_eq_iff bit_simps) blast
  also have "\<dots> = take_bit n v AND m1" using t by simp
  also have "\<dots> = v AND take_bit n m1"
    by (simp add: bit_eq_iff bit_simps) blast
  finally show ?thesis using m by simp
qed

lemma confined_take_bit:
  fixes a m :: "'a::len word"
  assumes "a AND NOT m = 0" "take_bit n m = 0"
  shows "take_bit n a = 0"
proof -
  have "a = a AND m"
    using assms(1) by (auto simp add: bit_eq_iff bit_simps dest: bit_imp_le_length)
  then have "take_bit n a = take_bit n a AND take_bit n m"
    by (metis take_bit_and)
  then show ?thesis using assms(2) by simp
qed

text \<open>
  C4, as the claim states it, fails: the addition is a plain 64-bit addition and carries
  out of a full field. With \<open>v = 0xffff\<close> (channel field full), the fields \<open>sensitive\<close> and
  \<open>channel\<close> and the addend 1, which lies within the channel mask, the sensitive field
  reads 0 before \<^verbatim>\<open>+=\<close> and 1 after it.
\<close>

theorem value_changed_by_carry:
  "(sensitive_mask, sensitive_shift) \<in> set subfields \<and>
   (channel_mask, channel_shift) \<in> set subfields \<and>
   sensitive_mask AND channel_mask = 0 \<and> 1 AND NOT channel_mask = 0 \<and>
   value 0xffff sensitive_mask sensitive_shift = 0 \<and>
   value (plus_assign 0xffff 1) sensitive_mask sensitive_shift = 1"
  by (simp add: subfields_def value_def plus_assign_def field_defs)

text \<open>
  C4, amended: for every GeometryID value \<open>v\<close>, every two disjoint (mask, shift) pairs among
  the six subfields and every addend confined to the second field's mask,
  \<open>v.value(mask1, shift1)\<close> is the same before and after \<^verbatim>\<open>+=\<close> with that addend, provided
  the first field lies below the second one or the addition does not carry out of the
  second field (the bits of \<open>v\<close> in the second field plus the addend still lie within the
  second mask).
\<close>

theorem value_unaffected_by_disjoint_add:
  assumes f1: "(mask1, shift1) \<in> set subfields"
    and f2: "(mask2, shift2) \<in> set subfields"
    and disjoint: "mask1 AND mask2 = 0"
    and confined: "addend AND NOT mask2 = 0"
    and no_carry: "shift1 < shift2 \<or> ((v AND mask2) + addend) AND NOT mask2 = 0"
  shows "value (plus_assign v addend) mask1 shift1 = value v mask1 shift1"
proof -
  have "(v + addend) AND mask1 = v AND mask1"
    using no_carry
  proof
    assume below: "shift1 < shift2"
    have "take_bit (unat shift2) addend = 0"
      using confined subfield_mask_above_shift [OF f2] by (rule confined_take_bit)
    moreover have "take_bit (unat shift2) mask1 = mask1"
      using f1 f2 below by (rule subfield_mask_below_shift)
    ultimately show ?thesis by (rule add_above_field)
  next
    assume "((v AND mask2) + addend) AND NOT mask2 = 0"
    with disjoint show ?thesis by (rule add_within_mask)
  qed
  then show ?thesis
    using subfield_mask_nonzero [OF f1] by (simp add: value_def plus_assign_def)
qed

text \<open>
  C4, amended, twice: an addition into the sensitive field that stays inside it, read
  through the layer field above; and an addition that carries out of the full sensitive
  field, read through the channel field below.
\<close>

theorem value_unaffected_by_disjoint_add_witness:
  "(layer_mask, layer_shift) \<in> set subfields \<and>
   (channel_mask, channel_shift) \<in> set subfields \<and>
   (sensitive_mask, sensitive_shift) \<in> set subfields \<and>
   layer_mask AND sensitive_mask = 0 \<and> channel_mask AND sensitive_mask = 0 \<and>
   0x20000 AND NOT sensitive_mask = 0 \<and>
   ((0x0000030000050007 AND sensitive_mask) + 0x20000) AND NOT sensitive_mask = 0 \<and>
   value (plus_assign 0x0000030000050007 0x20000) layer_mask layer_shift =
   value 0x0000030000050007 layer_mask layer_shift \<and>
   channel_shift < sensitive_shift \<and>
   value (plus_assign 0x00000000ffff0003 0x20000) channel_mask channel_shift =
   value 0x00000000ffff0003 channel_mask channel_shift"
proof -
  have f1: "(layer_mask, layer_shift) \<in> set subfields"
    and f2: "(sensitive_mask, sensitive_shift) \<in> set subfields"
    and f3: "(channel_mask, channel_shift) \<in> set subfields"
    by (simp_all add: subfields_def)
  have d: "layer_mask AND sensitive_mask = 0"
    and d': "channel_mask AND sensitive_mask = 0"
    and c: "0x20000 AND NOT sensitive_mask = 0"
    and n: "((0x0000030000050007 AND sensitive_mask) + 0x20000) AND NOT sensitive_mask = 0"
    and b: "channel_shift < sensitive_shift"
    by (simp_all add: field_defs)
  have inside: "value (plus_assign 0x0000030000050007 0x20000) layer_mask layer_shift =
      value 0x0000030000050007 layer_mask layer_shift"
    using f1 f2 d c disjI2 [OF n] by (rule value_unaffected_by_disjoint_add)
  have below: "value (plus_assign 0x00000000ffff0003 0x20000) channel_mask channel_shift =
      value 0x00000000ffff0003 channel_mask channel_shift"
    using f3 f2 d' c disjI1 [OF b] by (rule value_unaffected_by_disjoint_add)
  from f1 f3 f2 d d' c n inside b below show ?thesis by (intro conjI)
qed

section \<open>Properties of createBoundarySurfaces\<close>

text \<open>
  With the counter at 0, where \<^verbatim>\<open>createBoundarySurfaces\<close> starts it and the loop leaves it,
  every surface is wrapped the same way.
\<close>

lemma boundary_loop_counter_zero:
  "boundary_loop ty this 0 sfNumber sfs acc =
     acc @ map (\<lambda>sf. \<lparr>m_surface = sf, inner = Some this, outer = None\<rparr>) sfs"
  by (induction sfs arbitrary: acc) (simp_all add: Let_def)

lemma createBoundarySurfaces_all_inner:
  "createBoundarySurfaces ty this surfaces [] =
     map (\<lambda>sf. \<lparr>m_surface = sf, inner = Some this, outer = None\<rparr>) surfaces"
  by (simp add: createBoundarySurfaces_def boundary_loop_counter_zero)

text \<open>
  C2 describes a flip at index 3 that the code does not perform: \<open>sfCounter\<close> is set to 0
  and never incremented, so \<^verbatim>\<open>sfCounter == 3\<close> is false at every surface. On a volume of
  four surfaces whose surface at index 3 is a cylinder, every surface, the one at index 3
  included, is wrapped with inner = the volume and outer = null.
\<close>

theorem createBoundarySurfaces_never_flips:
  "createBoundarySurfaces example_type (1::nat) [10, 11, 12, 13] [] =
     [\<lparr>m_surface = 10, inner = Some 1, outer = None\<rparr>,
      \<lparr>m_surface = 11, inner = Some 1, outer = None\<rparr>,
      \<lparr>m_surface = 12, inner = Some 1, outer = None\<rparr>,
      \<lparr>m_surface = 13, inner = Some 1, outer = None\<rparr>] \<and>
   example_type 13 = Cylinder"
  by (simp add: createBoundarySurfaces_def example_type_def Let_def)

section \<open>Properties of the KalmanActor\<close>

subsection \<open>The loop of initialize\<close>

lemma initialize_loop_multimap:
  "fst (initialize_loop env state xs k ms ai) =
     fold multimap_insert (resolved_entries env state xs) ms"
  by (induction xs arbitrary: k ms ai) (simp_all add: Let_def split: option.split)

lemma initialize_loop_index_other:
  "(\<And>t. t \<in> set xs \<Longrightarrow> getSurface env t = s \<Longrightarrow> resolveLayer env state s = None) \<Longrightarrow>
   snd (initialize_loop env state xs k ms ai) s = ai s"
proof (induction xs arbitrary: k ms ai)
  case Nil
  then show ?case by simp
next
  case (Cons x xs)
  show ?case
  proof (cases "resolveLayer env state (getSurface env x)")
    case None
    have "snd (initialize_loop env state xs (k + 1) ms ai) s = ai s"
      by (rule Cons.IH) (use Cons.prems in auto)
    with None show ?thesis by (simp add: Let_def)
  next
    case (Some l)
    then have ne: "getSurface env x \<noteq> s" using Cons.prems [of x] by auto
    have "snd (initialize_loop env state xs (k + 1)
            (multimap_insert (l, getSurface env x) ms) (ai(getSurface env x \<mapsto> k))) s =
          (ai(getSurface env x \<mapsto> k)) s"
      by (rule Cons.IH) (use Cons.prems in auto)
    with Some ne show ?thesis by (simp add: Let_def)
  qed
qed

lemma initialize_loop_index_value:
  "snd (initialize_loop env state xs k ms ai) s = Some i \<Longrightarrow>
   ai s = Some i \<or>
   (k \<le> i \<and> i < k + length xs \<and> getSurface env (xs ! (i - k)) = s \<and>
    resolveLayer env state s \<noteq> None)"
proof (induction xs arbitrary: k ms ai)
  case Nil
  then show ?case by simp
next
  case (Cons x xs)
  show ?case
  proof (cases "resolveLayer env state (getSurface env x)")
    case None
    with Cons.prems have "snd (initialize_loop env state xs (k + 1) ms ai) s = Some i"
      by (simp add: Let_def)
    from Cons.IH [OF this] show ?thesis
      by (auto simp add: nth_Cons')
  next
    case (Some l)
    with Cons.prems have
      "snd (initialize_loop env state xs (k + 1)
              (multimap_insert (l, getSurface env x) ms) (ai(getSurface env x \<mapsto> k))) s = Some i"
      by (simp add: Let_def)
    from Cons.IH [OF this] Some show ?thesis
      by (auto simp add: nth_Cons' split: if_splits)
  qed
qed

lemma initialize_loop_index_last:
  assumes "j < length xs" "getSurface env (xs ! j) = s" "resolveLayer env state s \<noteq> None"
    and "\<And>j'. j < j' \<Longrightarrow> j' < length xs \<Longrightarrow> getSurface env (xs ! j') \<noteq> s"
  shows "snd (initialize_loop env state xs k ms ai) s = Some (k + j)"
  using assms
proof (induction xs arbitrary: k ms ai j)
  case Nil
  then show ?case by simp
next
  case (Cons x xs)
  show ?case
  proof (cases j)
    case 0
    with Cons.prems obtain l where l: "resolveLayer env state (getSurface env x) = Some l"
      and x: "getSurface env x = s" by auto
    have "\<And>t. t \<in> set xs \<Longrightarrow> getSurface env t \<noteq> s"
    proof -
      fix t assume "t \<in> set xs"
      then obtain n where "n < length xs" "xs ! n = t" by (auto simp add: in_set_conv_nth)
      with Cons.prems(4) [of "Suc n"] 0 show "getSurface env t \<noteq> s" by auto
    qed
    then have "snd (initialize_loop env state xs (k + 1)
                 (multimap_insert (l, s) ms) (ai(s \<mapsto> k))) s = (ai(s \<mapsto> k)) s"
      by (intro initialize_loop_index_other) auto
    with l x 0 show ?thesis by (simp add: Let_def)
  next
    case (Suc j')
    have a: "j' < length xs" "getSurface env (xs ! j') = s"
      using Cons.prems Suc by auto
    have b: "\<And>n. j' < n \<Longrightarrow> n < length xs \<Longrightarrow> getSurface env (xs ! n) \<noteq> s"
      using Cons.prems(4) [of "Suc _"] Suc by auto
    have "\<And>ms ai. snd (initialize_loop env state xs (k + 1) ms ai) s = Some (k + 1 + j')"
      using Cons.IH [OF a Cons.prems(3) b] by blast
    then show ?thesis using Suc by (simp add: Let_def split: option.split)
  qed
qed


lemma mset_multimap_insert: "mset (multimap_insert e xs) = add_mset e (mset xs)"
  by (induction xs) simp_all

lemma set_multimap_insert: "set (multimap_insert e xs) = insert e (set xs)"
  by (induction xs) auto

lemma sorted_multimap_insert:
  "sorted (map fst xs) \<Longrightarrow> sorted (map fst (multimap_insert e xs))"
  by (induction xs) (auto simp add: set_multimap_insert)

lemma bucket_multimap_insert:
  "sorted (map fst xs) \<Longrightarrow>
   filter (\<lambda>x. fst x = l) (multimap_insert e xs) =
   filter (\<lambda>x. fst x = l) xs @ (if fst e = l then [e] else [])"
proof (induction xs)
  case Nil
  then show ?case by simp
next
  case (Cons x xs)
  show ?case
  proof (cases "fst e < fst x")
    case True
    then have "\<forall>y \<in> set (x # xs). fst y \<noteq> fst e"
      using Cons.prems by fastforce
    then have "fst e = l \<Longrightarrow> filter (\<lambda>y. fst y = l) (x # xs) = []"
      unfolding filter_empty_conv by metis
    with True show ?thesis by (cases "fst e = l") auto
  next
    case False
    with Cons show ?thesis by simp
  qed
qed

lemma mset_fold_multimap_insert:
  "mset (fold multimap_insert es ms) = mset es + mset ms"
  by (induction es arbitrary: ms) (simp_all add: mset_multimap_insert)

lemma sorted_fold_multimap_insert:
  "sorted (map fst ms) \<Longrightarrow> sorted (map fst (fold multimap_insert es ms))"
  by (induction es arbitrary: ms) (simp_all add: sorted_multimap_insert)

lemma bucket_fold_multimap_insert:
  "sorted (map fst ms) \<Longrightarrow>
   filter (\<lambda>x. fst x = l) (fold multimap_insert es ms) =
   filter (\<lambda>x. fst x = l) ms @ filter (\<lambda>x. fst x = l) es"
  by (induction es arbitrary: ms)
     (simp_all add: sorted_multimap_insert bucket_multimap_insert)

lemma mset_resolved_entries:
  "mset (resolved_entries env state xs) =
   image_mset (\<lambda>t. (the (resolveLayer env state (getSurface env t)), getSurface env t))
     (filter_mset (\<lambda>t. resolveLayer env state (getSurface env t) \<noteq> None) (mset xs))"
  by (induction xs) (auto split: option.split)

lemma resolved_entries_all:
  "(\<And>t. t \<in> set xs \<Longrightarrow> resolveLayer env state (getSurface env t) \<noteq> None) \<Longrightarrow>
   resolved_entries env state xs =
   map (\<lambda>t. (the (resolveLayer env state (getSurface env t)), getSurface env t)) xs"
  by (induction xs) (auto split: option.split)

lemma set_resolved_entries:
  "(l, s) \<in> set (resolved_entries env state xs) \<longleftrightarrow>
   (\<exists>t \<in> set xs. getSurface env t = s \<and> resolveLayer env state s = Some l)"
  by (induction xs) (auto split: option.split)

lemma sorted_distinct_keys_unique:
  assumes "sorted (map fst xs)" "sorted (map fst ys)" "distinct (map fst xs)"
    and "mset xs = mset ys"
  shows "xs = ys"
proof -
  have "mset (map fst xs) = mset (map fst ys)" using assms(4) by simp
  then have d: "distinct (map fst ys)"
    using assms(3) by (metis mset_eq_imp_distinct_iff)
  have s: "set xs = set ys" using assms(4) by (rule mset_eq_setD)
  have "inj_on fst (set xs)" using assms(3) by (simp add: distinct_map)
  then have "inj_on fst (set xs \<union> set ys)" using s by simp
  then show ?thesis
    using assms(1) assms(3) assms(2) d s by (rule map_sorted_distinct_set_unique)
qed

subsection \<open>Unfolding initialize and update\<close>

lemmas example_defs =
  example_env_def example_actor_def example_state_def example_updator_def this_result_init_def

lemmas actor_defs =
  operator_call_def initialize_def update_def resolveLayer_def stepperIntersection_def
  stepper_update_def

lemma initialize_result:
  "snd (initialize env actor state result) =
     result\<lparr>fittedStates := trackStates actor,
            accessIndex := snd (initialize_loop env state (trackStates actor) 0 []
                                  (accessIndex result))\<rparr>"
  by (simp add: initialize_def Let_def split: prod.split)

lemma initialize_state:
  "fst (initialize env actor state result) =
     state\<lparr>navigation := (navigation state)
              \<lparr>sequence := \<lparr>externalSurfaces =
                  fst (initialize_loop env state (trackStates actor) 0 []
                         (accessIndex result))\<rparr>\<rparr>\<rparr>"
  by (simp add: initialize_def Let_def split: prod.split)

lemma initialize_externalSurfaces:
  "externalSurfaces (sequence (navigation (fst (initialize env actor state result)))) =
     fold multimap_insert (resolved_entries env state (trackStates actor)) []"
  by (simp add: initialize_state initialize_loop_multimap)

lemma update_unknown_surface:
  "accessIndex result surface = None \<Longrightarrow> update env actor surface state result = Inr (state, result)"
  by (simp add: update_def)

lemma update_in_bounds:
  "accessIndex result surface = Some i \<Longrightarrow> i < length (fittedStates result) \<Longrightarrow>
   update env actor surface state result \<noteq> Inl IndexOutOfRange"
  by (simp add: update_def Let_def split: prod.split option.split)

lemma update_frame:
  "update env actor surface state result = Inr (state', result') \<Longrightarrow>
   fittedStates result' = fittedStates result \<and> accessIndex result' = accessIndex result \<and>
   navigation state' = navigation state \<and> options state' = options state"
  by (auto simp add: update_def Let_def split: option.splits prod.splits if_splits)

lemma example_result_eval:
  "fittedStates example_result = example_states"
  "processedStates example_result = 0"
  "accessIndex example_result =
     [1 \<mapsto> 0, 2 \<mapsto> 1, 3 \<mapsto> 2, 4 \<mapsto> 3, 5 \<mapsto> 4]"
  by (simp_all add: example_result_def example_states_def example_defs actor_defs Let_def
        eval_nat_numeral)

lemma resolveLayer_fails:
  assumes "associatedLayer env surface = None"
    and "\<not> valid (stepperIntersection env state surface) \<or>
         worldVolume (navigation state) = None \<or>
         (\<exists>world. worldVolume (navigation state) = Some world \<and>
            (trackingVolume env world (position (stepperIntersection env state surface)) = None \<or>
             (\<exists>vol. trackingVolume env world
                       (position (stepperIntersection env state surface)) = Some vol \<and>
                    volumeAssociatedLayer env vol
                       (position (stepperIntersection env state surface)) = None)))"
  shows "resolveLayer env state surface = None"
  using assms by (auto simp add: resolveLayer_def Let_def split: option.splits)

subsection \<open>An invariant of the result\<close>

text \<open>
  The result a fit starts from is well indexed, and every invocation of the Actor that
  returns keeps it so. Hence whenever \<^verbatim>\<open>operator()\<close> calls \<^verbatim>\<open>initialize\<close> (the trajectory is
  empty) the access index is empty, and whenever \<^verbatim>\<open>update\<close> finds a Surface its position
  is inside \<^verbatim>\<open>fittedStates\<close>.
\<close>

lemma well_indexed_init: "well_indexed this_result_init"
  by (simp add: well_indexed_def this_result_init_def)

lemma well_indexed_empty:
  "well_indexed result \<Longrightarrow> fittedStates result = [] \<Longrightarrow> accessIndex result = Map.empty"
  by (rule ext) (simp add: well_indexed_def)

lemma initialize_well_indexed:
  assumes "well_indexed result" "fittedStates result = []"
  shows "well_indexed (snd (initialize env actor state result))"
  unfolding well_indexed_def
proof (intro allI impI)
  fix surface i
  assume "accessIndex (snd (initialize env actor state result)) surface = Some i"
  then have "snd (initialize_loop env state (trackStates actor) 0 [] Map.empty) surface = Some i"
    using well_indexed_empty [OF assms] by (simp add: initialize_result)
  from initialize_loop_index_value [OF this]
  show "i < length (fittedStates (snd (initialize env actor state result)))"
    by (simp add: initialize_result)
qed

lemma operator_call_well_indexed:
  assumes "well_indexed result"
    and "operator_call env actor state result = Inr (state', result')"
  shows "well_indexed result'"
proof -
  define r0 where "r0 = (if fittedStates result = []
                         then snd (initialize env actor state result) else result)"
  define st0 where "st0 = (if fittedStates result = []
                           then fst (initialize env actor state result) else state)"
  have w0: "well_indexed r0"
    using assms(1) by (simp add: r0_def initialize_well_indexed)
  have "(if fittedStates result = [] then initialize env actor state result
         else (state, result)) = (st0, r0)"
    by (simp add: st0_def r0_def)
  with assms(2) have "(case currentSurface (navigation st0) of
           Some surface \<Rightarrow> update env actor surface st0 r0
         | None \<Rightarrow> Inr (st0, r0)) = Inr (state', result')"
    by (simp add: operator_call_def)
  then have "fittedStates result' = fittedStates r0 \<and> accessIndex result' = accessIndex r0"
    by (auto split: option.splits dest: update_frame)
  with w0 show ?thesis by (simp add: well_indexed_def)
qed

lemma propagate_well_indexed:
  "well_indexed result \<Longrightarrow> propagate env actor steps state result = Inr (state', result') \<Longrightarrow>
   well_indexed result'"
proof (induction steps arbitrary: state result)
  case Nil
  then show ?case by simp
next
  case (Cons reached steps)
  let ?st = "state\<lparr>navigation := (navigation state)\<lparr>currentSurface := reached\<rparr>\<rparr>"
  from Cons.prems(2) obtain st1 r1 where
    call: "operator_call env actor ?st result = Inr (st1, r1)"
    and rest: "propagate env actor steps st1 r1 = Inr (state', result')"
    by (auto split: sum.splits)
  from Cons.prems(1) call have "well_indexed r1" by (rule operator_call_well_indexed)
  from Cons.IH [OF this rest] show ?case .
qed

subsection \<open>The access index\<close>

text \<open>
  C9: after \<^verbatim>\<open>initialize\<close> has run on the result the Actor starts from (its access index
  is empty, as \<^verbatim>\<open>this_result\<close> is created), every value stored in \<^verbatim>\<open>accessIndex\<close> is below
  the length of \<^verbatim>\<open>fittedStates\<close> and is the position of a track state on the Surface it is
  stored under; so \<^verbatim>\<open>update\<close> never indexes \<^verbatim>\<open>fittedStates\<close> out of bounds, whatever Surface
  is reported.
\<close>

theorem accessIndex_in_bounds:
  assumes fresh: "accessIndex result = Map.empty"
  shows "(\<forall>surface i.
            accessIndex (snd (initialize env actor state result)) surface = Some i \<longrightarrow>
            i < length (fittedStates (snd (initialize env actor state result))) \<and>
            getSurface env (fittedStates (snd (initialize env actor state result)) ! i) = surface) \<and>
         (\<forall>surface st.
            update env actor surface st (snd (initialize env actor state result))
              \<noteq> Inl IndexOutOfRange)"
proof -
  let ?r = "snd (initialize env actor state result)"
  have bound: "i < length (fittedStates ?r) \<and> getSurface env (fittedStates ?r ! i) = surface"
    if "accessIndex ?r surface = Some i" for surface i
  proof -
    from that have
      "snd (initialize_loop env state (trackStates actor) 0 [] Map.empty) surface = Some i"
      by (simp add: initialize_result fresh)
    from initialize_loop_index_value [OF this] show ?thesis
      by (simp add: initialize_result)
  qed
  have "update env actor surface st ?r \<noteq> Inl IndexOutOfRange" for surface st
  proof (cases "accessIndex ?r surface")
    case None
    then show ?thesis by (simp add: update_unknown_surface)
  next
    case (Some i)
    with bound [OF Some] show ?thesis by (intro update_in_bounds) auto
  qed
  with bound show ?thesis by blast
qed

text \<open>C9 on three track states: Surface 3 is stored with position 2, below the length 3.\<close>

theorem accessIndex_in_bounds_witness:
  "accessIndex (this_result_init :: (surface_ptr \<times> nat) this_result) = Map.empty \<and>
   accessIndex (snd (initialize example_env (example_actor [(1, 1), (2, 1), (3, 0)])
                       example_state this_result_init)) 3 = Some 2 \<and>
   2 < length (fittedStates (snd (initialize example_env (example_actor [(1, 1), (2, 1), (3, 0)])
                       example_state this_result_init))) \<and>
   update example_env (example_actor [(1, 1), (2, 1), (3, 0)]) 3 example_state
     (snd (initialize example_env (example_actor [(1, 1), (2, 1), (3, 0)])
             example_state this_result_init)) \<noteq> Inl IndexOutOfRange"
proof -
  have h: "accessIndex (this_result_init :: (surface_ptr \<times> nat) this_result) = Map.empty"
    by (simp add: this_result_init_def)
  have e: "accessIndex (snd (initialize example_env (example_actor [(1, 1), (2, 1), (3, 0)])
                       example_state this_result_init)) 3 = Some 2"
    by (simp add: example_defs actor_defs Let_def)
  from accessIndex_in_bounds [OF h, of example_env "example_actor [(1, 1), (2, 1), (3, 0)]" example_state]
    h e show ?thesis by blast
qed

text \<open>
  C6: a track state whose Surface has no Layer back-reference and whose Layer the lookup
  does not find (no valid intersection, or no world volume, or no volume at the
  intersection, or no Layer in that volume) is, after \<^verbatim>\<open>initialize\<close> on a fresh result, absent
  from \<^verbatim>\<open>accessIndex\<close> and from the multimap handed to the navigation, and an \<^verbatim>\<open>update\<close> on
  its Surface changes nothing.
\<close>

theorem unresolved_state_absent:
  assumes fresh: "accessIndex result = Map.empty"
    and member: "tState \<in> set (trackStates actor)"
    and no_layer: "associatedLayer env (getSurface env tState) = None"
    and no_lookup:
      "\<not> valid (stepperIntersection env state (getSurface env tState)) \<or>
       worldVolume (navigation state) = None \<or>
       (\<exists>world. worldVolume (navigation state) = Some world \<and>
          (trackingVolume env world
             (position (stepperIntersection env state (getSurface env tState))) = None \<or>
           (\<exists>vol. trackingVolume env world
                     (position (stepperIntersection env state (getSurface env tState))) = Some vol \<and>
                  volumeAssociatedLayer env vol
                     (position (stepperIntersection env state (getSurface env tState))) = None)))"
  shows "accessIndex (snd (initialize env actor state result)) (getSurface env tState) = None \<and>
         getSurface env tState \<notin>
           snd ` set (externalSurfaces (sequence (navigation
                        (fst (initialize env actor state result))))) \<and>
         (\<forall>st. update env actor (getSurface env tState) st
                  (snd (initialize env actor state result)) =
               Inr (st, snd (initialize env actor state result)))"
proof -
  let ?s = "getSurface env tState"
  let ?r = "snd (initialize env actor state result)"
  have none: "resolveLayer env state ?s = None"
    using no_layer no_lookup by (rule resolveLayer_fails)
  have "snd (initialize_loop env state (trackStates actor) 0 [] (accessIndex result)) ?s =
        accessIndex result ?s"
    by (rule initialize_loop_index_other) (use none in simp)
  then have a: "accessIndex ?r ?s = None"
    by (simp add: initialize_result fresh)
  have "set (externalSurfaces (sequence (navigation (fst (initialize env actor state result))))) =
        set (resolved_entries env state (trackStates actor))"
    unfolding initialize_externalSurfaces
    by (rule mset_eq_setD) (simp add: mset_fold_multimap_insert)
  then have b: "?s \<notin> snd ` set (externalSurfaces (sequence (navigation
                        (fst (initialize env actor state result)))))"
    using none by (auto simp add: set_resolved_entries)
  from a b show ?thesis by (simp add: update_unknown_surface)
qed

text \<open>
  C6 on the Surface 130: it carries no Layer, and the volume found at its intersection has
  no Layer for that point.
\<close>

theorem unresolved_state_absent_witness:
  "accessIndex (this_result_init :: (surface_ptr \<times> nat) this_result) = Map.empty \<and>
   (130, 1) \<in> set (trackStates (example_actor [(1, 1), (130, 1), (2, 1)])) \<and>
   associatedLayer example_env (getSurface example_env (130, 1)) = None \<and>
   worldVolume (navigation example_state) = Some 7 \<and>
   trackingVolume example_env 7
     (position (stepperIntersection example_env example_state
                  (getSurface example_env (130, 1)))) = Some 8 \<and>
   volumeAssociatedLayer example_env 8
     (position (stepperIntersection example_env example_state
                  (getSurface example_env (130, 1)))) = None \<and>
   accessIndex (snd (initialize example_env (example_actor [(1, 1), (130, 1), (2, 1)])
                       example_state this_result_init)) (getSurface example_env (130, 1)) = None \<and>
   getSurface example_env (130, 1) \<notin>
     snd ` set (externalSurfaces (sequence (navigation
        (fst (initialize example_env (example_actor [(1, 1), (130, 1), (2, 1)])
                example_state this_result_init))))) \<and>
   update example_env (example_actor [(1, 1), (130, 1), (2, 1)])
     (getSurface example_env (130, 1)) example_state
     (snd (initialize example_env (example_actor [(1, 1), (130, 1), (2, 1)])
             example_state this_result_init)) =
   Inr (example_state, snd (initialize example_env (example_actor [(1, 1), (130, 1), (2, 1)])
             example_state this_result_init))"
proof -
  have h1: "accessIndex (this_result_init :: (surface_ptr \<times> nat) this_result) = Map.empty"
    by (simp add: this_result_init_def)
  have h2: "(130, 1) \<in> set (trackStates (example_actor [(1, 1), (130, 1), (2, 1)]))"
    by (simp add: example_actor_def)
  have h3: "associatedLayer example_env (getSurface example_env (130, 1)) = None"
    by (simp add: example_env_def)
  have w: "worldVolume (navigation example_state) = Some 7"
    by (simp add: example_state_def)
  have t: "trackingVolume example_env 7
     (position (stepperIntersection example_env example_state
                  (getSurface example_env (130, 1)))) = Some 8"
    by (simp add: example_env_def stepperIntersection_def)
  have v: "volumeAssociatedLayer example_env 8
     (position (stepperIntersection example_env example_state
                  (getSurface example_env (130, 1)))) = None"
    by (simp add: example_env_def stepperIntersection_def)
  from w t v have h4:
      "\<not> valid (stepperIntersection example_env example_state (getSurface example_env (130, 1))) \<or>
       worldVolume (navigation example_state) = None \<or>
       (\<exists>world. worldVolume (navigation example_state) = Some world \<and>
          (trackingVolume example_env world
             (position (stepperIntersection example_env example_state
                (getSurface example_env (130, 1)))) = None \<or>
           (\<exists>vol. trackingVolume example_env world
                     (position (stepperIntersection example_env example_state
                        (getSurface example_env (130, 1)))) = Some vol \<and>
                  volumeAssociatedLayer example_env vol
                     (position (stepperIntersection example_env example_state
                        (getSurface example_env (130, 1)))) = None)))"
    by blast
  from unresolved_state_absent [OF h1 h2 h3 h4] h1 h2 h3 w t v show ?thesis by blast
qed

subsection \<open>The update\<close>

text \<open>
  C3: when the reached Surface is in \<^verbatim>\<open>accessIndex\<close> (at a position inside \<^verbatim>\<open>fittedStates\<close>,
  which is what C9 gives) and the updator returns no result, \<^verbatim>\<open>update\<close> returns normally,
  \<^verbatim>\<open>processedStates\<close> is one higher, and the stepper state is the one \<^verbatim>\<open>bind\<close> left: the
  transported values, with no correction applied.
\<close>

theorem rejected_update_counts_state:
  assumes "accessIndex result surface = Some cindex"
    and "cindex < length (fittedStates result)"
    and "m_updator actor (fittedStates result ! cindex)
           (fst (bind env (stepping state) surface True)) = None"
  shows "update env actor surface state result =
           Inr (state\<lparr>stepping := snd (bind env (stepping state) surface True)\<rparr>,
                result\<lparr>processedStates := processedStates result + 1\<rparr>)"
  using assms by (simp add: update_def Let_def case_prod_beta)

text \<open>
  C3 on the third of the five track states: the stepper keeps the transported position 30
  and covariance 1.
\<close>

theorem rejected_update_counts_state_witness:
  "accessIndex example_result 3 = Some 2 \<and> 2 < length (fittedStates example_result) \<and>
   m_updator (example_actor example_states) (fittedStates example_result ! 2)
     (fst (bind example_env (stepping example_state) 3 True)) = None \<and>
   update example_env (example_actor example_states) 3 example_state example_result =
     Inr (example_state\<lparr>stepping := snd (bind example_env (stepping example_state) 3 True)\<rparr>,
          example_result\<lparr>processedStates := processedStates example_result + 1\<rparr>) \<and>
   snd (bind example_env (stepping example_state) 3 True) =
     \<lparr>pos = 30, dir = 1, p = 5, cov = 1, navDir = forward\<rparr>"
proof -
  have h1: "accessIndex example_result 3 = Some 2"
    and h2: "2 < length (fittedStates example_result)"
    by (simp_all add: example_result_eval example_states_def)
  have h3: "m_updator (example_actor example_states) (fittedStates example_result ! 2)
     (fst (bind example_env (stepping example_state) 3 True)) = None"
    by (simp add: example_result_eval example_states_def example_defs)
  have b: "snd (bind example_env (stepping example_state) 3 True) =
     \<lparr>pos = 30, dir = 1, p = 5, cov = 1, navDir = forward\<rparr>"
    by (simp add: example_defs)
  from rejected_update_counts_state [OF h1 h2 h3] h1 h2 h3 b show ?thesis by blast
qed

text \<open>
  C7: on an invocation after the initialisation (the trajectory has been taken over, or
  there is none to take over) that reports a Surface which is not a key of \<^verbatim>\<open>accessIndex\<close>,
  the Actor returns the result unchanged (\<^verbatim>\<open>processedStates\<close>, \<^verbatim>\<open>fittedStates\<close> and
  \<^verbatim>\<open>accessIndex\<close>) and leaves the stepper state as it was.
\<close>

theorem unknown_surface_is_inert:
  assumes "fittedStates result \<noteq> [] \<or> trackStates actor = []"
    and "currentSurface (navigation state) = Some surface"
    and "accessIndex result surface = None"
  shows "\<exists>state'. operator_call env actor state result = Inr (state', result) \<and>
           stepping state' = stepping state"
proof (cases "fittedStates result = []")
  case False
  with assms(2,3) show ?thesis
    by (simp add: operator_call_def update_unknown_surface)
next
  case True
  with assms(1) have ts: "trackStates actor = []" by simp
  have r: "snd (initialize env actor state result) = result"
    using True ts by (simp add: initialize_result)
  have s: "currentSurface (navigation (fst (initialize env actor state result))) = Some surface"
    "stepping (fst (initialize env actor state result)) = stepping state"
    using assms(2) by (simp_all add: initialize_state)
  obtain st1 r1 where i: "initialize env actor state result = (st1, r1)"
    by (cases "initialize env actor state result")
  with r s have "r1 = result" "currentSurface (navigation st1) = Some surface"
    "stepping st1 = stepping state" by simp_all
  with True i assms(3) show ?thesis
    by (simp add: operator_call_def update_unknown_surface)
qed

text \<open>C7 on the Surface 99, which no track state lies on.\<close>

theorem unknown_surface_is_inert_witness:
  "fittedStates example_result \<noteq> [] \<and>
   currentSurface (navigation (example_state\<lparr>navigation :=
      (navigation example_state)\<lparr>currentSurface := Some 99\<rparr>\<rparr>)) = Some 99 \<and>
   accessIndex example_result 99 = None \<and>
   (\<exists>state'. operator_call example_env (example_actor example_states)
        (example_state\<lparr>navigation := (navigation example_state)\<lparr>currentSurface := Some 99\<rparr>\<rparr>)
        example_result = Inr (state', example_result) \<and>
      stepping state' = stepping (example_state\<lparr>navigation :=
        (navigation example_state)\<lparr>currentSurface := Some 99\<rparr>\<rparr>))"
proof -
  let ?st = "example_state\<lparr>navigation := (navigation example_state)\<lparr>currentSurface := Some 99\<rparr>\<rparr>"
  have h1: "fittedStates example_result \<noteq> [] \<or> trackStates (example_actor example_states) = []"
    by (simp add: example_result_eval example_states_def)
  have h2: "currentSurface (navigation ?st) = Some 99" by simp
  have h3: "accessIndex example_result 99 = None" by (simp add: example_result_eval)
  have h0: "fittedStates example_result \<noteq> []"
    by (simp add: example_result_eval example_states_def)
  from unknown_surface_is_inert [OF h1 h2 h3] h0 h2 h3 show ?thesis by blast
qed

subsection \<open>Several track states on one Surface\<close>

lemma length_surface_positions:
  "length (surface_positions env xs s) = length (filter (\<lambda>t. getSurface env t = s) xs)"
proof -
  have "filter (\<lambda>t. getSurface env t = s) (map (nth xs) [0..<length xs]) =
        map (nth xs) (surface_positions env xs s)"
    by (simp add: surface_positions_def filter_map comp_def)
  then have "length (filter (\<lambda>t. getSurface env t = s) (map (nth xs) [0..<length xs])) =
        length (surface_positions env xs s)" by simp
  then show ?thesis by (simp add: map_nth)
qed

lemma sorted_le_last:
  "sorted (ps :: nat list) \<Longrightarrow> x \<in> set ps \<Longrightarrow> x \<le> last ps"
  by (induction ps) auto

lemma last_surface_position:
  assumes "surface_positions env xs s \<noteq> []"
  shows "last (surface_positions env xs s) < length xs"
    and "getSurface env (xs ! last (surface_positions env xs s)) = s"
    and "\<And>j. last (surface_positions env xs s) < j \<Longrightarrow> j < length xs \<Longrightarrow>
           getSurface env (xs ! j) \<noteq> s"
proof -
  let ?ps = "surface_positions env xs s"
  have "last ?ps \<in> set ?ps" using assms by (rule last_in_set)
  then show "last ?ps < length xs" "getSurface env (xs ! last ?ps) = s"
    by (simp_all add: surface_positions_def)
  have sorted: "sorted ?ps"
    unfolding surface_positions_def by (rule sorted_wrt_filter) simp
  show "getSurface env (xs ! j) \<noteq> s" if "last ?ps < j" "j < length xs" for j
  proof
    assume "getSurface env (xs ! j) = s"
    with that(2) have "j \<in> set ?ps" by (simp add: surface_positions_def)
    with sorted have "j \<le> last ?ps" by (rule sorted_le_last)
    with that(1) show False by simp
  qed
qed

lemma count_resolved_entries:
  "resolveLayer env state s = Some l \<Longrightarrow>
   count (mset (resolved_entries env state xs)) (l, s) =
   length (filter (\<lambda>t. getSurface env t = s) xs)"
  by (induction xs) (auto split: option.split)

text \<open>
  What \<^verbatim>\<open>update\<close> does on a Surface that the access index maps to a position inside the
  trajectory: it binds the stepper to the Surface, runs the updator on the track state at
  that position, and returns the result with the counter one higher and with
  \<^verbatim>\<open>fittedStates\<close> as it was.
\<close>

lemma update_at_position:
  assumes "accessIndex result surface = Some i" "i < length (fittedStates result)"
  shows "update env actor surface st result =
     (case m_updator actor (fittedStates result ! i)
             (fst (bind env (stepping st) surface True)) of
        None \<Rightarrow>
          Inr (st\<lparr>stepping := snd (bind env (stepping st) surface True)\<rparr>,
               result\<lparr>processedStates := processedStates result + 1\<rparr>)
      | Some updPar \<Rightarrow>
          (case upd_covariance updPar of
             None \<Rightarrow> Inl NullCovariance
           | Some c \<Rightarrow>
               Inr (st\<lparr>stepping :=
                       (stepper_update (upd_position updPar)
                          (normalized env (upd_momentum updPar))
                          (norm env (upd_momentum updPar))
                          (snd (bind env (stepping st) surface True)))\<lparr>cov := c\<rparr>\<rparr>,
                    result\<lparr>processedStates := processedStates result + 1\<rparr>)))"
  using assms
  by (simp add: update_def Let_def case_prod_beta split: option.split)

text \<open>
  With two or more track states on one Surface whose Layer resolves, \<^verbatim>\<open>initialize\<close> (on a
  fresh result) puts one entry for the Surface into the multimap per such state and maps
  the Surface to the last of their positions; \<^verbatim>\<open>update\<close> on that Surface then runs the
  updator on the state at that last position, counts it, and returns \<^verbatim>\<open>fittedStates\<close>
  unchanged.
\<close>

lemma update_on_duplicate_surface:
  fixes state st :: "('v, 's, 'c, 'o) propagator_state"
  assumes fresh: "accessIndex result = Map.empty"
    and layer: "resolveLayer env state surface = Some layer"
    and dup: "2 \<le> length (surface_positions env (trackStates actor) surface)"
  shows "count (mset (externalSurfaces (sequence (navigation
                  (fst (initialize env actor state result)))))) (layer, surface) =
           length (surface_positions env (trackStates actor) surface)"
    and "accessIndex (snd (initialize env actor state result)) surface =
           Some (last (surface_positions env (trackStates actor) surface))"
    and "update env actor surface st (snd (initialize env actor state result)) =
     (case m_updator actor
             (trackStates actor ! last (surface_positions env (trackStates actor) surface))
             (fst (bind env (stepping st) surface True)) of
        None \<Rightarrow>
          Inr (st\<lparr>stepping := snd (bind env (stepping st) surface True)\<rparr>,
               (snd (initialize env actor state result))
                 \<lparr>processedStates :=
                    processedStates (snd (initialize env actor state result)) + 1\<rparr>)
      | Some updPar \<Rightarrow>
          (case upd_covariance updPar of
             None \<Rightarrow> Inl NullCovariance
           | Some c \<Rightarrow>
               Inr (st\<lparr>stepping :=
                       (stepper_update (upd_position updPar)
                          (normalized env (upd_momentum updPar))
                          (norm env (upd_momentum updPar))
                          (snd (bind env (stepping st) surface True)))\<lparr>cov := c\<rparr>\<rparr>,
                    (snd (initialize env actor state result))
                      \<lparr>processedStates :=
                         processedStates (snd (initialize env actor state result)) + 1\<rparr>)))"
    and "update env actor surface st (snd (initialize env actor state result)) =
           Inr (st', result') \<Longrightarrow> fittedStates result' = trackStates actor"
proof -
  let ?ps = "surface_positions env (trackStates actor) surface"
  let ?r = "snd (initialize env actor state result)"
  have ne: "?ps \<noteq> []" using dup by auto
  show "count (mset (externalSurfaces (sequence (navigation
                  (fst (initialize env actor state result)))))) (layer, surface) = length ?ps"
    by (simp add: initialize_externalSurfaces mset_fold_multimap_insert
          count_resolved_entries [OF layer] length_surface_positions)
  have "snd (initialize_loop env state (trackStates actor) 0 [] (accessIndex result)) surface =
        Some (0 + last ?ps)"
    using last_surface_position [OF ne] layer
    by (intro initialize_loop_index_last) auto
  then show index: "accessIndex ?r surface = Some (last ?ps)"
    by (simp add: initialize_result)
  have fs: "fittedStates ?r = trackStates actor" by (simp add: initialize_result)
  have inside: "last ?ps < length (fittedStates ?r)"
    using last_surface_position(1) [OF ne] by (simp add: fs)
  from update_at_position [OF index inside, of env actor st]
  show "update env actor surface st ?r =
     (case m_updator actor (trackStates actor ! last ?ps)
             (fst (bind env (stepping st) surface True)) of
        None \<Rightarrow>
          Inr (st\<lparr>stepping := snd (bind env (stepping st) surface True)\<rparr>,
               ?r\<lparr>processedStates := processedStates ?r + 1\<rparr>)
      | Some updPar \<Rightarrow>
          (case upd_covariance updPar of
             None \<Rightarrow> Inl NullCovariance
           | Some c \<Rightarrow>
               Inr (st\<lparr>stepping :=
                       (stepper_update (upd_position updPar)
                          (normalized env (upd_momentum updPar))
                          (norm env (upd_momentum updPar))
                          (snd (bind env (stepping st) surface True)))\<lparr>cov := c\<rparr>\<rparr>,
                    ?r\<lparr>processedStates := processedStates ?r + 1\<rparr>)))"
    unfolding fs .
  show "fittedStates result' = trackStates actor"
    if "update env actor surface st ?r = Inr (st', result')"
    using update_frame [OF that] fs by simp
qed




subsection \<open>The order of the track states\<close>

lemma initialize_fresh:
  assumes "accessIndex result = Map.empty"
  shows "accessIndex (snd (initialize env actor state result)) =
           built_index env state (trackStates actor)"
    and "externalSurfaces (sequence (navigation (fst (initialize env actor state result)))) =
           built_surfaces env state (trackStates actor)"
  using assms by (simp_all add: initialize_result initialize_state built_index_def built_surfaces_def)

lemma built_surfaces_fold:
  "built_surfaces env state xs = fold multimap_insert (resolved_entries env state xs) []"
  by (simp add: built_surfaces_def initialize_loop_multimap)

lemma bucket_resolved_entries:
  "map snd (filter (\<lambda>e. fst e = l) (resolved_entries env state xs)) =
   map (getSurface env) (filter (\<lambda>t. resolveLayer env state (getSurface env t) = Some l) xs)"
  by (induction xs) (auto split: option.split)

lemma built_surfaces_bucket:
  "map snd (filter (\<lambda>e. fst e = l) (built_surfaces env state xs)) =
   map (getSurface env) (filter (\<lambda>t. resolveLayer env state (getSurface env t) = Some l) xs)"
  by (simp add: built_surfaces_fold bucket_fold_multimap_insert bucket_resolved_entries)

lemma built_surfaces_mset:
  "mset (built_surfaces env state xs) = mset (resolved_entries env state xs)"
  by (simp add: built_surfaces_fold mset_fold_multimap_insert)

lemma built_surfaces_sorted: "sorted (map fst (built_surfaces env state xs))"
  by (simp add: built_surfaces_fold sorted_fold_multimap_insert)

lemma built_index_distinct:
  assumes resolves: "\<forall>t \<in> set xs. resolveLayer env state (getSurface env t) \<noteq> None"
    and surfaces: "distinct (map (getSurface env) xs)"
  shows "\<forall>i < length xs. built_index env state xs (getSurface env (xs ! i)) = Some i"
    and "dom (built_index env state xs) = getSurface env ` set xs"
    and "card (dom (built_index env state xs)) = length xs"
proof -
  show at: "\<forall>i < length xs. built_index env state xs (getSurface env (xs ! i)) = Some i"
  proof (intro allI impI)
    fix i assume i: "i < length xs"
    have "snd (initialize_loop env state xs 0 [] Map.empty) (getSurface env (xs ! i)) =
          Some (0 + i)"
    proof (rule initialize_loop_index_last [OF i refl])
      show "resolveLayer env state (getSurface env (xs ! i)) \<noteq> None"
        using resolves i by simp
      fix j assume "i < j" "j < length xs"
      with surfaces i have "map (getSurface env) xs ! j \<noteq> map (getSurface env) xs ! i"
        by (simp add: nth_eq_iff_index_eq del: nth_map)
      with i \<open>j < length xs\<close> show "getSurface env (xs ! j) \<noteq> getSurface env (xs ! i)"
        by simp
    qed
    then show "built_index env state xs (getSurface env (xs ! i)) = Some i"
      by (simp add: built_index_def)
  qed
  show d: "dom (built_index env state xs) = getSurface env ` set xs"
  proof
    show "dom (built_index env state xs) \<subseteq> getSurface env ` set xs"
    proof
      fix s assume "s \<in> dom (built_index env state xs)"
      then obtain i where "snd (initialize_loop env state xs 0 [] Map.empty) s = Some i"
        by (auto simp add: built_index_def)
      from initialize_loop_index_value [OF this]
      have "i < length xs" "getSurface env (xs ! i) = s" by simp_all
      then show "s \<in> getSurface env ` set xs" by (metis imageI nth_mem)
    qed
    show "getSurface env ` set xs \<subseteq> dom (built_index env state xs)"
      using at by (auto simp add: in_set_conv_nth)
  qed
  show "card (dom (built_index env state xs)) = length xs"
    using surfaces d by (metis distinct_card length_map set_map)
qed

lemma distinct_layers_surfaces:
  assumes "distinct (map (\<lambda>t. resolveLayer env state (getSurface env t)) xs)"
  shows "distinct (map (getSurface env) xs)"
proof -
  have "map (\<lambda>t. resolveLayer env state (getSurface env t)) xs =
        map (resolveLayer env state) (map (getSurface env) xs)" by simp
  with assms show ?thesis by (metis distinct_map)
qed

lemma distinct_layers_keys:
  assumes resolves: "\<forall>t \<in> set xs. resolveLayer env state (getSurface env t) \<noteq> None"
    and layers: "distinct (map (\<lambda>t. resolveLayer env state (getSurface env t)) xs)"
  shows "distinct (map fst (resolved_entries env state xs))"
proof -
  have "map fst (resolved_entries env state xs) =
        map the (map (\<lambda>t. resolveLayer env state (getSurface env t)) xs)"
    using resolves by (simp add: resolved_entries_all)
  moreover have "inj_on the (set (map (\<lambda>t. resolveLayer env state (getSurface env t)) xs))"
  proof (rule inj_onI)
    fix a b
    assume "a \<in> set (map (\<lambda>t. resolveLayer env state (getSurface env t)) xs)"
      and "b \<in> set (map (\<lambda>t. resolveLayer env state (getSurface env t)) xs)"
      and "the a = the b"
    moreover from this resolves have "a \<noteq> None" "b \<noteq> None" by auto
    ultimately show "a = b" by auto
  qed
  ultimately show ?thesis using layers by (simp add: distinct_map del: map_map)
qed


lemma resolved_entries_perm:
  "mset xs' = mset xs \<Longrightarrow>
   mset (resolved_entries env state xs') = mset (resolved_entries env state xs)"
  by (simp add: mset_resolved_entries)

text \<open>
  C5, as the claim states it, fails for \<^verbatim>\<open>accessIndex\<close>: its values are positions in the
  input sequence, so they change with the order. For two track states on the Surfaces 1
  and 2 (Layers 1001 and 1002), Surface 1 is stored with 0 in one order and with 1 in the
  other.
\<close>

theorem accessIndex_depends_on_order:
  "mset swapped_states = mset ordered_states \<and>
   map (\<lambda>t. resolveLayer example_env example_state (getSurface example_env t)) ordered_states =
     [Some 1001, Some 1002] \<and>
   accessIndex (this_result_init :: (surface_ptr \<times> nat) this_result) 1 = None \<and>
   accessIndex (snd (initialize example_env (example_actor ordered_states)
                       example_state this_result_init)) 1 = Some 0 \<and>
   accessIndex (snd (initialize example_env (example_actor swapped_states)
                       example_state this_result_init)) 1 = Some 1 \<and>
   accessIndex (snd (initialize example_env (example_actor ordered_states)
                       example_state this_result_init)) \<noteq>
   accessIndex (snd (initialize example_env (example_actor swapped_states)
                       example_state this_result_init))"
proof -
  have a: "accessIndex (snd (initialize example_env (example_actor ordered_states)
                       example_state this_result_init)) 1 = Some 0"
    and b: "accessIndex (snd (initialize example_env (example_actor swapped_states)
                       example_state this_result_init)) 1 = Some 1"
    by (simp_all add: ordered_states_def swapped_states_def example_defs actor_defs Let_def)
  from a b have c: "accessIndex (snd (initialize example_env (example_actor ordered_states)
                       example_state this_result_init)) \<noteq>
   accessIndex (snd (initialize example_env (example_actor swapped_states)
                       example_state this_result_init))"
    by (metis option.inject zero_neq_one)
  have d: "mset swapped_states = mset ordered_states"
    by (simp add: ordered_states_def swapped_states_def)
  have e: "map (\<lambda>t. resolveLayer example_env example_state (getSurface example_env t))
             ordered_states = [Some 1001, Some 1002]"
    "accessIndex (this_result_init :: (surface_ptr \<times> nat) this_result) 1 = None"
    by (simp_all add: ordered_states_def example_defs actor_defs)
  from a b c d e show ?thesis by (intro conjI)
qed

text \<open>
  C5, amended: for N track states whose Surfaces each resolve to a distinct Layer,
  \<^verbatim>\<open>initialize\<close> (on a fresh result) produces an \<^verbatim>\<open>accessIndex\<close> with N keys and a multimap
  with N entries; for every permutation of the input order the multimap is the same and
  \<^verbatim>\<open>accessIndex\<close> has the same keys, while \<^verbatim>\<open>accessIndex\<close> maps each Surface to the position of
  its track state in the order given; inside the bucket of a Layer the Surfaces stand in
  input order.
\<close>

theorem initialize_index_under_permutation:
  fixes state :: "('v, 's, 'c, 'o) propagator_state"
  assumes fresh: "accessIndex result = Map.empty"
    and resolves:
      "\<forall>t \<in> set (trackStates actor). resolveLayer env state (getSurface env t) \<noteq> None"
    and layers:
      "distinct (map (\<lambda>t. resolveLayer env state (getSurface env t)) (trackStates actor))"
    and perm: "mset (trackStates actor') = mset (trackStates actor)"
  shows
    "card (dom (accessIndex (snd (initialize env actor state result)))) =
       length (trackStates actor) \<and>
     length (externalSurfaces (sequence (navigation
        (fst (initialize env actor state result))))) = length (trackStates actor) \<and>
     externalSurfaces (sequence (navigation (fst (initialize env actor' state result)))) =
       externalSurfaces (sequence (navigation (fst (initialize env actor state result)))) \<and>
     dom (accessIndex (snd (initialize env actor' state result))) =
       dom (accessIndex (snd (initialize env actor state result))) \<and>
     (\<forall>i < length (trackStates actor).
        accessIndex (snd (initialize env actor state result))
          (getSurface env (trackStates actor ! i)) = Some i) \<and>
     (\<forall>i < length (trackStates actor').
        accessIndex (snd (initialize env actor' state result))
          (getSurface env (trackStates actor' ! i)) = Some i) \<and>
     (\<forall>layer.
        map snd (filter (\<lambda>e. fst e = layer)
          (externalSurfaces (sequence (navigation (fst (initialize env actor state result)))))) =
        map (getSurface env)
          (filter (\<lambda>t. resolveLayer env state (getSurface env t) = Some layer)
             (trackStates actor)))"
proof -
  let ?xs = "trackStates actor" and ?ys = "trackStates actor'"
  have set_eq: "set ?ys = set ?xs" using perm by (rule mset_eq_setD)
  have resolves': "\<forall>t \<in> set ?ys. resolveLayer env state (getSurface env t) \<noteq> None"
    using resolves set_eq by simp
  have "mset (map (\<lambda>t. resolveLayer env state (getSurface env t)) ?ys) =
        mset (map (\<lambda>t. resolveLayer env state (getSurface env t)) ?xs)"
    using perm by simp
  then have layers': "distinct (map (\<lambda>t. resolveLayer env state (getSurface env t)) ?ys)"
    using layers by (metis mset_eq_imp_distinct_iff)
  note xs = built_index_distinct [OF resolves distinct_layers_surfaces [OF layers]]
  note ys = built_index_distinct [OF resolves' distinct_layers_surfaces [OF layers']]
  have entries: "mset (built_surfaces env state ?ys) = mset (built_surfaces env state ?xs)"
    unfolding built_surfaces_mset using perm by (rule resolved_entries_perm)
  have "mset (map fst (built_surfaces env state ?xs)) =
        mset (map fst (resolved_entries env state ?xs))"
    by (simp add: built_surfaces_mset)
  then have keys: "distinct (map fst (built_surfaces env state ?xs))"
    using distinct_layers_keys [OF resolves layers] by (metis mset_eq_imp_distinct_iff)
  have same: "built_surfaces env state ?ys = built_surfaces env state ?xs"
    using built_surfaces_sorted built_surfaces_sorted keys entries [symmetric]
    by (rule sorted_distinct_keys_unique [symmetric])
  have "length (built_surfaces env state ?xs) = length (resolved_entries env state ?xs)"
    using built_surfaces_mset by (rule mset_eq_length)
  then have len: "length (built_surfaces env state ?xs) = length ?xs"
    using resolves by (simp add: resolved_entries_all)
  have doms: "dom (built_index env state ?ys) = dom (built_index env state ?xs)"
    using xs(2) ys(2) set_eq by simp
  show ?thesis
    unfolding initialize_fresh [OF fresh]
  proof (intro conjI)
    show "card (dom (built_index env state ?xs)) = length ?xs" by (rule xs(3))
    show "length (built_surfaces env state ?xs) = length ?xs" by (rule len)
    show "built_surfaces env state ?ys = built_surfaces env state ?xs" by (rule same)
    show "dom (built_index env state ?ys) = dom (built_index env state ?xs)" by (rule doms)
    show "\<forall>i < length ?xs. built_index env state ?xs (getSurface env (?xs ! i)) = Some i"
      by (rule xs(1))
    show "\<forall>i < length ?ys. built_index env state ?ys (getSurface env (?ys ! i)) = Some i"
      by (rule ys(1))
    show "\<forall>layer. map snd (filter (\<lambda>e. fst e = layer) (built_surfaces env state ?xs)) =
        map (getSurface env)
          (filter (\<lambda>t. resolveLayer env state (getSurface env t) = Some layer) ?xs)"
      by (simp add: built_surfaces_bucket)
  qed
qed

text \<open>C5, amended, on the two track states in both orders.\<close>

theorem initialize_index_under_permutation_witness:
  "accessIndex (this_result_init :: (surface_ptr \<times> nat) this_result) = Map.empty \<and>
   map (\<lambda>t. resolveLayer example_env example_state (getSurface example_env t))
     (trackStates (example_actor ordered_states)) = [Some 1001, Some 1002] \<and>
   mset (trackStates (example_actor swapped_states)) =
     mset (trackStates (example_actor ordered_states)) \<and>
   card (dom (accessIndex (snd (initialize example_env (example_actor ordered_states)
                                  example_state this_result_init)))) = 2 \<and>
   length (externalSurfaces (sequence (navigation
      (fst (initialize example_env (example_actor ordered_states)
              example_state this_result_init))))) = 2 \<and>
   externalSurfaces (sequence (navigation
      (fst (initialize example_env (example_actor swapped_states)
              example_state this_result_init)))) =
   externalSurfaces (sequence (navigation
      (fst (initialize example_env (example_actor ordered_states)
              example_state this_result_init)))) \<and>
   dom (accessIndex (snd (initialize example_env (example_actor swapped_states)
                            example_state this_result_init))) =
   dom (accessIndex (snd (initialize example_env (example_actor ordered_states)
                            example_state this_result_init))) \<and>
   accessIndex (snd (initialize example_env (example_actor ordered_states)
                       example_state this_result_init))
     (getSurface example_env (trackStates (example_actor ordered_states) ! 1)) = Some 1 \<and>
   accessIndex (snd (initialize example_env (example_actor swapped_states)
                       example_state this_result_init))
     (getSurface example_env (trackStates (example_actor swapped_states) ! 1)) = Some 1"
proof -
  have ts: "trackStates (example_actor ordered_states) = ordered_states"
    "trackStates (example_actor swapped_states) = swapped_states"
    by (simp_all add: example_actor_def)
  have h1: "accessIndex (this_result_init :: (surface_ptr \<times> nat) this_result) = Map.empty"
    by (simp add: this_result_init_def)
  have m: "map (\<lambda>t. resolveLayer example_env example_state (getSurface example_env t))
     (trackStates (example_actor ordered_states)) = [Some 1001, Some 1002]"
    unfolding ts by (simp add: ordered_states_def resolveLayer_def example_env_def)
  have h2: "\<forall>t \<in> set (trackStates (example_actor ordered_states)).
              resolveLayer example_env example_state (getSurface example_env t) \<noteq> None"
    unfolding ts by (simp add: ordered_states_def resolveLayer_def example_env_def)
  have h3: "distinct (map (\<lambda>t. resolveLayer example_env example_state
                                   (getSurface example_env t))
                        (trackStates (example_actor ordered_states)))"
    unfolding m by simp
  have h4: "mset (trackStates (example_actor swapped_states)) =
     mset (trackStates (example_actor ordered_states))"
    unfolding ts by (simp add: ordered_states_def swapped_states_def)
  have len: "length (trackStates (example_actor ordered_states)) = 2"
    "1 < length (trackStates (example_actor ordered_states))"
    "1 < length (trackStates (example_actor swapped_states))"
    unfolding ts by (simp_all add: ordered_states_def swapped_states_def)
  note main = initialize_index_under_permutation [OF h1 h2 h3 h4]
  from main have c1: "card (dom (accessIndex (snd (initialize example_env
      (example_actor ordered_states) example_state this_result_init)))) = 2"
    unfolding len(1) by (rule conjunct1)
  from main have c2: "length (externalSurfaces (sequence (navigation
      (fst (initialize example_env (example_actor ordered_states)
              example_state this_result_init))))) = 2"
    unfolding len(1) by blast
  from main have c3: "externalSurfaces (sequence (navigation
      (fst (initialize example_env (example_actor swapped_states)
              example_state this_result_init)))) =
   externalSurfaces (sequence (navigation
      (fst (initialize example_env (example_actor ordered_states)
              example_state this_result_init))))"
    by blast
  from main have c4: "dom (accessIndex (snd (initialize example_env (example_actor swapped_states)
                            example_state this_result_init))) =
   dom (accessIndex (snd (initialize example_env (example_actor ordered_states)
                            example_state this_result_init)))"
    by blast
  from main len(2) have c5: "accessIndex (snd (initialize example_env
      (example_actor ordered_states) example_state this_result_init))
     (getSurface example_env (trackStates (example_actor ordered_states) ! 1)) = Some 1"
    by blast
  from main len(3) have c6: "accessIndex (snd (initialize example_env
      (example_actor swapped_states) example_state this_result_init))
     (getSurface example_env (trackStates (example_actor swapped_states) ! 1)) = Some 1"
    by blast
  from h1 m h4 c1 c2 c3 c4 c5 c6 show ?thesis by (intro conjI)
qed

subsection \<open>Repeated reports and the end of the fit\<close>

lemma update_known_surface:
  assumes "accessIndex result surface = Some i"
    and "update env actor surface state result = Inr (state', result')"
  shows "processedStates result' = processedStates result + 1"
    and "i < length (fittedStates result)"
  using assms
  by (auto simp add: update_def Let_def case_prod_beta split: option.splits if_splits)

lemma operator_call_frame:
  assumes "operator_call env actor state result = Inr (state', result')"
  shows "options state' = options state"
    and "currentSurface (navigation state') = currentSurface (navigation state)"
    and "worldVolume (navigation state') = worldVolume (navigation state)"
proof -
  obtain st1 r1 where i: "(if fittedStates result = [] then initialize env actor state result
             else (state, result)) = (st1, r1)"
    by (cases "if fittedStates result = [] then initialize env actor state result
             else (state, result)")
  then have "st1 = (if fittedStates result = [] then fst (initialize env actor state result)
                    else state)"
    by (auto split: if_splits)
  then have f: "options st1 = options state"
    "currentSurface (navigation st1) = currentSurface (navigation state)"
    "worldVolume (navigation st1) = worldVolume (navigation state)"
    by (simp_all add: initialize_state)
  from assms i have "(case currentSurface (navigation st1) of
           Some surface \<Rightarrow> update env actor surface st1 r1
         | None \<Rightarrow> Inr (st1, r1)) = Inr (state', result')"
    by (simp add: operator_call_def)
  then have "navigation state' = navigation st1 \<and> options state' = options st1"
    by (auto split: option.splits dest: update_frame)
  with f show "options state' = options state"
    and "currentSurface (navigation state') = currentSurface (navigation state)"
    and "worldVolume (navigation state') = worldVolume (navigation state)"
    by simp_all
qed

text \<open>
  C8, as the claim states it, fails: nothing in the Actor records that a Surface has been
  processed. With Surface 1 reported on two invocations, both return normally and
  \<^verbatim>\<open>processedStates\<close> is 2, the length of the trajectory, although the state on Surface 2
  has not been visited.
\<close>

theorem revisit_counted_twice:
  "map_sum id (processedStates \<circ> snd)
     (propagate example_env (example_actor ordered_states) [Some 1, Some 1]
        example_state this_result_init) = Inr 2 \<and>
   length (trackStates (example_actor ordered_states)) = 2"
  by (simp add: ordered_states_def example_defs actor_defs Let_def)

text \<open>
  C8, amended: when the navigation reports a measurement Surface on an invocation that
  returns normally and reports the same Surface again on a later invocation, the Actor
  runs \<^verbatim>\<open>update\<close> on that Surface again, with no check for the revisit: the first
  invocation has incremented \<^verbatim>\<open>processedStates\<close> once, and the second, when it returns
  normally, has incremented it a second time and left \<^verbatim>\<open>accessIndex\<close> as it was.
\<close>

theorem revisit_reruns_update:
  fixes state1 state2 :: "('v, 's, 'c, 'o) propagator_state"
  assumes first: "operator_call env actor state1 result = Inr (state1', result1)"
    and reported1: "currentSurface (navigation state1) = Some surface"
    and known: "accessIndex result1 surface \<noteq> None"
    and reported2: "currentSurface (navigation state2) = Some surface"
  shows "processedStates result1 = processedStates result + 1 \<and>
         operator_call env actor state2 result1 = update env actor surface state2 result1 \<and>
         (\<forall>state2' result2.
            operator_call env actor state2 result1 = Inr (state2', result2) \<longrightarrow>
            processedStates result2 = processedStates result + 2 \<and>
            accessIndex result2 = accessIndex result1)"
proof -
  define st0 where "st0 = (if fittedStates result = [] then fst (initialize env actor state1 result)
                    else state1)"
  define r0 where "r0 = (if fittedStates result = [] then snd (initialize env actor state1 result)
                    else result)"
  have pair: "(if fittedStates result = [] then initialize env actor state1 result
             else (state1, result)) = (st0, r0)"
    by (simp add: st0_def r0_def)
  have cs: "currentSurface (navigation st0) = Some surface"
    using reported1 by (simp add: st0_def initialize_state)
  have p0: "processedStates r0 = processedStates result"
    by (simp add: r0_def initialize_result)
  have u: "update env actor surface st0 r0 = Inr (state1', result1)"
    using first pair cs by (simp add: operator_call_def)
  from known obtain i where "accessIndex result1 surface = Some i" by auto
  with update_frame [OF u] have k: "accessIndex r0 surface = Some i" by simp
  from update_known_surface [OF k u] p0 have
    one: "processedStates result1 = processedStates result + 1"
    and "i < length (fittedStates r0)" by simp_all
  with update_frame [OF u] have ne: "fittedStates result1 \<noteq> []" by auto
  have second: "operator_call env actor state2 result1 = update env actor surface state2 result1"
    using ne reported2 by (simp add: operator_call_def)
  have two: "processedStates result2 = processedStates result + 2 \<and>
      accessIndex result2 = accessIndex result1"
    if "operator_call env actor state2 result1 = Inr (state2', result2)" for state2' result2
  proof -
    from that second have u2: "update env actor surface state2 result1 = Inr (state2', result2)"
      by simp
    from update_known_surface(1) [OF \<open>accessIndex result1 surface = Some i\<close> u2] one
      update_frame [OF u2]
    show ?thesis by simp
  qed
  from one second two show ?thesis by blast
qed

text \<open>C8, amended, on Surface 1 of the two ordered track states.\<close>

theorem revisit_reruns_update_witness:
  "operator_call example_env (example_actor ordered_states) (reporting 1) this_result_init =
     Inr (first_visit_state, first_visit_result) \<and>
   currentSurface (navigation (reporting 1)) = Some 1 \<and>
   accessIndex first_visit_result 1 \<noteq> None \<and>
   currentSurface (navigation first_visit_state) = Some 1 \<and>
   processedStates first_visit_result = processedStates (this_result_init :: (surface_ptr \<times> nat) this_result) + 1 \<and>
   operator_call example_env (example_actor ordered_states) first_visit_state first_visit_result =
     update example_env (example_actor ordered_states) 1 first_visit_state first_visit_result \<and>
   map_sum id (processedStates \<circ> snd)
     (operator_call example_env (example_actor ordered_states) first_visit_state
        first_visit_result) = Inr 2"
proof -
  have h1: "operator_call example_env (example_actor ordered_states) (reporting 1)
              this_result_init = Inr (first_visit_state, first_visit_result)"
    by (simp add: reporting_def first_visit_state_def first_visit_result_def ordered_states_def
          example_defs actor_defs Let_def)
  have h2: "currentSurface (navigation (reporting 1)) = Some 1"
    by (simp add: reporting_def)
  have h3: "accessIndex first_visit_result 1 \<noteq> None"
    by (simp add: first_visit_result_def)
  have h4: "currentSurface (navigation first_visit_state) = Some 1"
    by (simp add: first_visit_state_def)
  have e: "map_sum id (processedStates \<circ> snd)
     (operator_call example_env (example_actor ordered_states) first_visit_state
        first_visit_result) = Inr 2"
    by (simp add: first_visit_state_def first_visit_result_def ordered_states_def
          example_defs actor_defs Let_def)
  note main = revisit_reruns_update [OF h1 h2 h3 h4]
  from main have c1: "processedStates first_visit_result =
      processedStates (this_result_init :: (surface_ptr \<times> nat) this_result) + 1"
    by (rule conjunct1)
  from main have c2: "operator_call example_env (example_actor ordered_states)
      first_visit_state first_visit_result =
     update example_env (example_actor ordered_states) 1 first_visit_state first_visit_result"
    by blast
  from h1 h2 h3 h4 c1 c2 e show ?thesis by (intro conjI)
qed

text \<open>
  C1 describes a termination that the code announces in a comment and does not perform:
  the condition on \<^verbatim>\<open>processedStates\<close> that ends \<^verbatim>\<open>operator()\<close> has no statement under it.
  For five track states on the Surfaces 1 to 5, each reported once in order, the fifth
  invocation returns with \<^verbatim>\<open>processedStates\<close> = 5 and the propagator state carries no sign
  of it: \<open>options\<close> and the world volume are as at the start, and the navigation differs
  only in the reported Surface and in the multimap \<^verbatim>\<open>initialize\<close> stored.
\<close>

theorem no_stop_after_last_state:
  "length (trackStates (example_actor accepted_states)) = 5 \<and>
   map_sum id (processedStates \<circ> snd)
     (propagate example_env (example_actor accepted_states)
        [Some 1, Some 2, Some 3, Some 4, Some 5] example_state this_result_init) = Inr 5 \<and>
   map_sum id (options \<circ> fst)
     (propagate example_env (example_actor accepted_states)
        [Some 1, Some 2, Some 3, Some 4, Some 5] example_state this_result_init) =
     Inr (options example_state) \<and>
   map_sum id (navigation \<circ> fst)
     (propagate example_env (example_actor accepted_states)
        [Some 1, Some 2, Some 3, Some 4, Some 5] example_state this_result_init) =
     Inr \<lparr>currentSurface = Some 5, worldVolume = worldVolume (navigation example_state),
          sequence = \<lparr>externalSurfaces =
            [(1001, 1), (1002, 2), (1003, 3), (1004, 4), (1005, 5)]\<rparr>\<rparr>"
  by (simp add: accepted_states_def example_defs actor_defs Let_def)

end
